theory Spec2Isabelle
  imports Main "HOL-Library.Sublist"
begin

section \<open>JavaScript values\<close>

text \<open>
  The values the adapter handles are the values of a parsed JSON document, and the
  primitives it stores in its variables. A JavaScript variable that may be
  \<^verbatim>\<open>undefined\<close> has type \<open>json option\<close> (\<open>None\<close> is \<^verbatim>\<open>undefined\<close>).
  Numbers are integers, and taken to be below \<open>10\<^sup>2\<^sup>1\<close> in magnitude, where JavaScript
  prints a number with all its digits: the adapter only compares, prints and forwards them.
  An object is the list of its own properties in the order \<^verbatim>\<open>Object.keys\<close> gives
  them (the names are distinct, as in every parsed document).
\<close>

datatype json =
    JNull
  | JBool bool
  | JNum int
  | JStr string
  | JArr "json list"
  | JObj "(string \<times> json) list"

datatype js_error = TypeError | NetworkError | HostError

text \<open>Truthiness, as \<^verbatim>\<open>if (v)\<close> and \<^verbatim>\<open>!v\<close> read a value.\<close>

fun truthy :: "json \<Rightarrow> bool" where
  "truthy JNull = False"
| "truthy (JBool b) = b"
| "truthy (JNum n) = (n \<noteq> 0)"
| "truthy (JStr s) = (s \<noteq> [])"
| "truthy (JArr xs) = True"
| "truthy (JObj fs) = True"

fun truthy_opt :: "json option \<Rightarrow> bool" where
  "truthy_opt None = False"
| "truthy_opt (Some v) = truthy v"

text \<open>
  Strict equality \<^verbatim>\<open>===\<close>. Primitives are compared by type and value. An array or
  an object is only equal to itself; the two sides of every comparison of the adapter
  come from different places (a fresh document, the host), so they are never the same
  array or object.
\<close>

fun strict_eq :: "json \<Rightarrow> json \<Rightarrow> bool" where
  "strict_eq JNull JNull = True"
| "strict_eq (JBool a) (JBool b) = (a = b)"
| "strict_eq (JNum a) (JNum b) = (a = b)"
| "strict_eq (JStr a) (JStr b) = (a = b)"
| "strict_eq a b = False"

fun strict_eq_opt :: "json option \<Rightarrow> json \<Rightarrow> bool" where
  "strict_eq_opt None b = False"
| "strict_eq_opt (Some a) b = strict_eq a b"

text \<open>\<^verbatim>\<open>typeof v === "object"\<close>, and the same with \<^verbatim>\<open>&& !Array.isArray(v)\<close>.\<close>

fun typeof_object :: "json \<Rightarrow> bool" where
  "typeof_object JNull = True"
| "typeof_object (JArr xs) = True"
| "typeof_object (JObj fs) = True"
| "typeof_object v = False"

fun object_not_array :: "json \<Rightarrow> bool" where
  "object_not_array JNull = True"
| "object_not_array (JObj fs) = True"
| "object_not_array v = False"

subsection \<open>Numbers and values as strings\<close>

definition digit_char :: "nat \<Rightarrow> char" where
  "digit_char d = ''0123456789abcdef'' ! d"

function show_nat :: "nat \<Rightarrow> string" where
  "show_nat n = (if n < 10 then [digit_char n] else show_nat (n div 10) @ [digit_char (n mod 10)])"
  by pat_completeness auto
termination
  by (relation "measure id") auto

declare show_nat.simps [simp del]

definition show_int :: "int \<Rightarrow> string" where
  "show_int i = (if i < 0 then ''-'' @ show_nat (nat (- i)) else show_nat (nat i))"

text \<open>\<^verbatim>\<open>String(v)\<close>: what a template literal and \<^verbatim>\<open>+\<close> with a string make of a value.\<close>

fun toString :: "json \<Rightarrow> string" and toString_elems :: "json list \<Rightarrow> string" where
  "toString JNull = ''null''"
| "toString (JBool b) = (if b then ''true'' else ''false'')"
| "toString (JNum n) = show_int n"
| "toString (JStr s) = s"
| "toString (JArr xs) = toString_elems xs"
| "toString (JObj fs) = ''[object Object]''"
| "toString_elems [] = []"
| "toString_elems [x] = (if x = JNull then [] else toString x)"
| "toString_elems (x # y # ys) =
     (if x = JNull then [] else toString x) @ '','' @ toString_elems (y # ys)"

fun toString_opt :: "json option \<Rightarrow> string" where
  "toString_opt None = ''undefined''"
| "toString_opt (Some v) = toString v"

text \<open>\<^verbatim>\<open>JSON.stringify\<close>.\<close>

definition escape_char :: "char \<Rightarrow> string" where
  "escape_char c =
     (if c = CHR 0x22 then [CHR 0x5C, CHR 0x22]
      else if c = CHR 0x5C then [CHR 0x5C, CHR 0x5C]
      else if c = CHR 0x08 then [CHR 0x5C, CHR ''b'']
      else if c = CHR 0x0C then [CHR 0x5C, CHR ''f'']
      else if c = CHR 0x0A then [CHR 0x5C, CHR ''n'']
      else if c = CHR 0x0D then [CHR 0x5C, CHR ''r'']
      else if c = CHR 0x09 then [CHR 0x5C, CHR ''t'']
      else if of_char c < (32 :: nat)
        then [CHR 0x5C, CHR ''u'', CHR ''0'', CHR ''0'',
              digit_char (of_char c div 16), digit_char (of_char c mod 16)]
      else [c])"

definition json_quote :: "string \<Rightarrow> string" where
  "json_quote s = [CHR 0x22] @ concat (map escape_char s) @ [CHR 0x22]"

fun stringify :: "json \<Rightarrow> string"
  and stringify_elems :: "json list \<Rightarrow> string"
  and stringify_members :: "(string \<times> json) list \<Rightarrow> string" where
  "stringify JNull = ''null''"
| "stringify (JBool b) = (if b then ''true'' else ''false'')"
| "stringify (JNum n) = show_int n"
| "stringify (JStr s) = json_quote s"
| "stringify (JArr xs) = ''['' @ stringify_elems xs @ '']''"
| "stringify (JObj fs) = ''{'' @ stringify_members fs @ ''}''"
| "stringify_elems [] = []"
| "stringify_elems [x] = stringify x"
| "stringify_elems (x # y # ys) = stringify x @ '','' @ stringify_elems (y # ys)"
| "stringify_members [] = []"
| "stringify_members [(k, v)] = json_quote k @ '':'' @ stringify v"
| "stringify_members ((k, v) # m # ms) =
     json_quote k @ '':'' @ stringify v @ '','' @ stringify_members (m # ms)"

text \<open>
  Reading a property: \<^verbatim>\<open>v.name\<close>. It throws on \<^verbatim>\<open>null\<close>, finds the property of an
  object, and is \<^verbatim>\<open>undefined\<close> on everything else (the adapter reads \<^verbatim>\<open>meta\<close> and
  \<^verbatim>\<open>nonce\<close> only, which no primitive and no array has).
\<close>

fun get_prop :: "json \<Rightarrow> string \<Rightarrow> js_error + json option" where
  "get_prop JNull k = Inl TypeError"
| "get_prop (JObj fs) k = Inr (map_of fs k)"
| "get_prop v k = Inr None"

text \<open>
  \<^verbatim>\<open>Buffer.byteLength\<close>: the number of bytes of a string (a \<open>string\<close> here is its
  sequence of bytes); Node throws a TypeError for a value that is neither a string nor a
  buffer.
\<close>

fun byteLength :: "json \<Rightarrow> js_error + nat" where
  "byteLength (JStr s) = Inr (length s)"
| "byteLength v = Inl TypeError"

section \<open>The adapter's surroundings and its variables\<close>

text \<open>
  The host keeps states and objects by identifier. A state has a value and the
  acknowledgement flag; of an object the adapter touches \<^verbatim>\<open>common.write\<close> only.
\<close>

record host_state =
  val :: json
  ack :: bool

record host_object =
  common_write :: "json option"

record response =
  status :: int
  data :: json

text \<open>
  What is fixed during a run: the configuration (\<^verbatim>\<open>adapterInstance.config\<close>), the
  instance number (the adapter is named \<^verbatim>\<open>haassohn\<close>, so its namespace is
  \<^verbatim>\<open>haassohn.<n>\<close>), the hash function of the \<^verbatim>\<open>md5\<close> package, and the behaviour of the
  outside world: what the \<open>n\<close>-th reading of the clock returns, how the \<open>n\<close>-th HTTP
  request ends (a response, or a rejected promise), and whether the \<open>n\<close>-th awaited
  call to the host is rejected. The configuration is taken to be complete: the PIN is a
  string, and \<open>supportedHwSwVersions\<close> tells for every key whether the configured
  table holds a truthy entry for it.
\<close>

record environment =
  fireplaceAddress :: string
  pin :: string
  pollingInterval :: int
  supportedHwSwVersions :: "string \<Rightarrow> bool"
  instance_number :: nat
  md5 :: "string \<Rightarrow> string"
  clock :: "nat \<Rightarrow> int"
  network :: "nat \<Rightarrow> js_error + response"
  host_fault :: "nat \<Rightarrow> bool"

definition namespace :: "environment \<Rightarrow> string" where
  "namespace E = ''haassohn.'' @ show_nat (instance_number E)"

datatype header_field = HStr string | HNum nat | HUndefined

datatype severity = Warn | Err

text \<open>
  What the adapter does to the outside is kept as a trace: the requests, the calls to the
  host, the timer, and the log. Of the log, the warnings and errors are kept, each by the
  fixed part of its text (the name of a state is kept, other interpolated values and the
  text of a caught exception are not), and the debug line
  \<^verbatim>\<open>Processing state: ... with value: ...\<close> with its two values.
\<close>

datatype event =
    Log severity string
  | Processing string json
  | HttpGet string
  | HttpPost string json "(string \<times> header_field) list"
  | GetObject string
  | GetState string
  | SetState string json bool
  | SetObject string host_object
  | ClearTimeout
  | SetTimeout int
  | SubscribeStates string

text \<open>
  The module's variables (lines 12 to 23), the host's store, the pending timer, and the
  counters of clock readings, HTTP requests and awaited host calls made so far.
  \<open>deviceStates\<close> holds \<open>Some None\<close> for \<^verbatim>\<open>null\<close> and \<open>Some (Some v)\<close> for
  \<^verbatim>\<open>{ value: v }\<close>.
\<close>

record world =
  deviceStates :: "string \<Rightarrow> json option option"
  noOfConnectionErrors :: nat
  missingState :: bool
  timer :: "int option"
  disableAdapter :: bool
  hw_version :: "json option"
  sw_version :: "json option"
  hpin :: "string option"
  hspin :: "string option"
  nonce :: "json option"
  nonceTimestamp :: int
  host_states :: "string \<Rightarrow> host_state option"
  host_objects :: "string \<Rightarrow> host_object option"
  clock_reads :: nat
  requests :: nat
  host_calls :: nat
  events :: "event list"

definition nonceExpiryTime :: int where
  "nonceExpiryTime = 60 * 60 * 1000"

definition initial_world ::
  "(string \<Rightarrow> host_state option) \<Rightarrow> (string \<Rightarrow> host_object option) \<Rightarrow> world" where
  "initial_world hs ho =
     \<lparr> deviceStates = (\<lambda>k. None), noOfConnectionErrors = 0, missingState = False,
       timer = None, disableAdapter = False, hw_version = None, sw_version = None,
       hpin = None, hspin = None, nonce = None, nonceTimestamp = 0,
       host_states = hs, host_objects = ho,
       clock_reads = 0, requests = 0, host_calls = 0, events = [] \<rparr>"

subsection \<open>The outside world's operations\<close>

definition emit :: "event \<Rightarrow> world \<Rightarrow> world" where
  "emit e w = w\<lparr>events := events w @ [e]\<rparr>"

definition date_now :: "environment \<Rightarrow> world \<Rightarrow> int \<times> world" where
  "date_now E w = (clock E (clock_reads w), w\<lparr>clock_reads := Suc (clock_reads w)\<rparr>)"

definition axios :: "environment \<Rightarrow> event \<Rightarrow> world \<Rightarrow> (js_error + response) \<times> world" where
  "axios E request w =
     (network E (requests w), (emit request w)\<lparr>requests := Suc (requests w)\<rparr>)"

text \<open>
  The host resolves an identifier without the namespace inside the adapter's namespace
  (the adapter passes \<^verbatim>\<open>device.prg\<close> in one place and the full identifier in another).
\<close>

definition starts_with :: "string \<Rightarrow> string \<Rightarrow> bool" where
  "starts_with p s = (take (length p) s = p)"

definition fixId :: "environment \<Rightarrow> string \<Rightarrow> string" where
  "fixId E ident =
     (if starts_with (namespace E @ ''.'') ident then ident else namespace E @ ''.'' @ ident)"

text \<open>An awaited host call: counted, traced, and rejected when the environment says so.\<close>

definition host_call :: "environment \<Rightarrow> event \<Rightarrow> world \<Rightarrow> bool \<times> world" where
  "host_call E e w =
     (host_fault E (host_calls w), (emit e w)\<lparr>host_calls := Suc (host_calls w)\<rparr>)"

definition getObjectAsync ::
  "environment \<Rightarrow> string \<Rightarrow> world \<Rightarrow> (js_error + host_object option) \<times> world" where
  "getObjectAsync E ident w =
     (case host_call E (GetObject ident) w of
        (True, w1) \<Rightarrow> (Inl HostError, w1)
      | (False, w1) \<Rightarrow> (Inr (host_objects w1 (fixId E ident)), w1))"

definition getStateAsync ::
  "environment \<Rightarrow> string \<Rightarrow> world \<Rightarrow> (js_error + host_state option) \<times> world" where
  "getStateAsync E ident w =
     (case host_call E (GetState ident) w of
        (True, w1) \<Rightarrow> (Inl HostError, w1)
      | (False, w1) \<Rightarrow> (Inr (host_states w1 (fixId E ident)), w1))"

definition store_state :: "environment \<Rightarrow> string \<Rightarrow> json \<Rightarrow> bool \<Rightarrow> world \<Rightarrow> world" where
  "store_state E ident v a w =
     w\<lparr>host_states := (host_states w)(fixId E ident \<mapsto> \<lparr>val = v, ack = a\<rparr>)\<rparr>"

definition setStateAsync ::
  "environment \<Rightarrow> string \<Rightarrow> json \<Rightarrow> bool \<Rightarrow> world \<Rightarrow> js_error option \<times> world" where
  "setStateAsync E ident v a w =
     (case host_call E (SetState ident v a) w of
        (True, w1) \<Rightarrow> (Some HostError, w1)
      | (False, w1) \<Rightarrow> (None, store_state E ident v a w1))"

definition setObjectAsync ::
  "environment \<Rightarrow> string \<Rightarrow> host_object \<Rightarrow> world \<Rightarrow> js_error option \<times> world" where
  "setObjectAsync E ident obj w =
     (case host_call E (SetObject ident obj) w of
        (True, w1) \<Rightarrow> (Some HostError, w1)
      | (False, w1) \<Rightarrow> (None, w1\<lparr>host_objects := (host_objects w1)(fixId E ident \<mapsto> obj)\<rparr>))"

text \<open>
  The calls with a callback, \<^verbatim>\<open>getState(id, cb)\<close> and \<^verbatim>\<open>setState(id, v, ack)\<close>, are
  not awaited: the host is taken to answer them (with the state or \<^verbatim>\<open>null\<close>).
\<close>

definition getState :: "environment \<Rightarrow> string \<Rightarrow> world \<Rightarrow> host_state option \<times> world" where
  "getState E ident w = (host_states w (fixId E ident), emit (GetState ident) w)"

definition setState :: "environment \<Rightarrow> string \<Rightarrow> json \<Rightarrow> bool \<Rightarrow> world \<Rightarrow> world" where
  "setState E ident v a w = store_state E ident v a (emit (SetState ident v a) w)"

definition clearTimeout :: "world \<Rightarrow> world" where
  "clearTimeout w = (emit ClearTimeout w)\<lparr>timer := None\<rparr>"

definition setTimeout :: "int \<Rightarrow> world \<Rightarrow> world" where
  "setTimeout ms w = (emit (SetTimeout ms) w)\<lparr>timer := Some ms\<rparr>"

section \<open>Credentials\<close>

text \<open>
  \<^verbatim>\<open>NONCE + HPIN\<close>, as the bytes \<^verbatim>\<open>md5\<close> hashes: the text of the sum as soon as
  \<^verbatim>\<open>HPIN\<close> is a string. With \<^verbatim>\<open>HPIN\<close> undefined, a number, a boolean or \<^verbatim>\<open>null\<close>
  gives the number \<^verbatim>\<open>NaN\<close>; the package turns it into the text \<^verbatim>\<open>NaN\<close> and reads the
  three characters as bytes without encoding them, which gives three zero bytes.
\<close>

definition nan_bytes :: string where
  "nan_bytes = [CHR 0x00, CHR 0x00, CHR 0x00]"

fun js_plus :: "json \<Rightarrow> string option \<Rightarrow> string" where
  "js_plus n (Some h) = toString n @ h"
| "js_plus (JNum n) None = nan_bytes"
| "js_plus (JBool b) None = nan_bytes"
| "js_plus JNull None = nan_bytes"
| "js_plus v None = toString v @ ''undefined''"

definition calculateHSPIN :: "environment \<Rightarrow> json \<Rightarrow> string option \<Rightarrow> string" where
  "calculateHSPIN E NONCE HPIN = md5 E (js_plus NONCE HPIN)"

definition calculateHPIN :: "environment \<Rightarrow> string \<Rightarrow> string" where
  "calculateHPIN E PIN = md5 E PIN"

definition update_nonce :: "environment \<Rightarrow> json \<Rightarrow> world \<Rightarrow> world" where
  "update_nonce E n w =
     (case date_now E (w\<lparr>nonce := Some n\<rparr>) of
        (t, w1) \<Rightarrow> w1\<lparr>nonceTimestamp := t, hspin := Some (calculateHSPIN E n (hpin w1))\<rparr>)"

section \<open>Synchronising the states (syncState)\<close>

text \<open>Lines 314 to 319: an array is stored as its JSON text, a primitive as it is.\<close>

definition coerce :: "json \<Rightarrow> json" where
  "coerce v = (if typeof_object v then JStr (stringify v) else v)"

text \<open>Lines 321 to 330: the nonce is taken over when it differs from the cached one.\<close>

definition intercept_nonce :: "environment \<Rightarrow> string \<Rightarrow> json \<Rightarrow> world \<Rightarrow> world" where
  "intercept_nonce E stateName newValue w =
     (if stateName = ''device.meta.nonce'' \<and> \<not> strict_eq_opt (nonce w) newValue
      then update_nonce E newValue w else w)"

text \<open>Lines 332 to 339.\<close>

definition buffer_versions :: "string \<Rightarrow> json \<Rightarrow> world \<Rightarrow> world" where
  "buffer_versions stateName newValue w =
     (if stateName = ''device.meta.hw_version'' \<and> \<not> strict_eq_opt (hw_version w) newValue
        then w\<lparr>hw_version := Some newValue\<rparr>
      else if stateName = ''device.meta.sw_version'' \<and> \<not> strict_eq_opt (sw_version w) newValue
        then w\<lparr>sw_version := Some newValue\<rparr>
      else w)"

text \<open>Lines 341 to 350: the state is set when it has no value yet or a different one.\<close>

definition publish ::
  "environment \<Rightarrow> string \<Rightarrow> host_state option \<Rightarrow> json \<Rightarrow> world \<Rightarrow> js_error option \<times> world" where
  "publish E stateName currentState newValue w =
     (case currentState of
        Some cs \<Rightarrow>
          if \<not> strict_eq (val cs) newValue then setStateAsync E stateName newValue True w
          else (None, w)
      | None \<Rightarrow> setStateAsync E stateName newValue True w)"

text \<open>
  Lines 310 to 350, the branch of an existing object. The first component of the result
  is the exception thrown, if any; what was done before it stays done.
\<close>

definition sync_existing ::
  "environment \<Rightarrow> string \<Rightarrow> world \<Rightarrow> js_error option \<times> world" where
  "sync_existing E stateName w =
     (case getStateAsync E stateName w of
        (Inl e, w1) \<Rightarrow> (Some e, w1)
      | (Inr currentState, w1) \<Rightarrow>
          (case deviceStates w1 stateName of
             Some (Some v) \<Rightarrow>
               (let w2 = w1\<lparr>deviceStates := (deviceStates w1)(stateName := Some None)\<rparr>;
                    newValue = coerce v;
                    w3 = intercept_nonce E stateName newValue w2;
                    w4 = buffer_versions stateName newValue w3
                in publish E stateName currentState newValue w4)
           | _ \<Rightarrow> (Some TypeError, w1)))"

text \<open>Lines 357 to 364: the writability of \<^verbatim>\<open>device.eco_mode\<close> follows the raw value.\<close>

definition eco_editable_special ::
  "environment \<Rightarrow> string \<Rightarrow> json \<Rightarrow> world \<Rightarrow> js_error option \<times> world" where
  "eco_editable_special E stateName v w =
     (if stateName = ''device.meta.eco_editable'' then
        (case getObjectAsync E ''device.eco_mode'' w of
           (Inl e, w1) \<Rightarrow> (Some e, w1)
         | (Inr None, w1) \<Rightarrow> (None, w1)
         | (Inr (Some obj), w1) \<Rightarrow>
             setObjectAsync E ''device.eco_mode'' (obj\<lparr>common_write := Some v\<rparr>) w1)
      else (None, w))"

text \<open>Lines 308 to 364: the body of the inner \<^verbatim>\<open>try\<close>.\<close>

definition process_try ::
  "environment \<Rightarrow> string \<Rightarrow> json \<Rightarrow> world \<Rightarrow> js_error option \<times> world" where
  "process_try E stateName v w =
     (case getObjectAsync E stateName w of
        (Inl e, w1) \<Rightarrow> (Some e, w1)
      | (Inr object, w1) \<Rightarrow>
          (case (case object of
                   Some ob \<Rightarrow> sync_existing E stateName w1
                 | None \<Rightarrow>
                     (None, (emit (Log Warn (''State '' @ stateName @
                        '' does not exist. Please open an issue on GitHub.'')) w1)
                        \<lparr>missingState := True\<rparr>)) of
             (Some e, w2) \<Rightarrow> (Some e, w2)
           | (None, w2) \<Rightarrow> eco_editable_special E stateName v w2))"

text \<open>Lines 297 to 368: one atomic value or array, under the key \<open>key\<close> at \<open>path\<close>.\<close>

definition state_name :: "string \<Rightarrow> string \<Rightarrow> string" where
  "state_name path key =
     (if path = [] then ''device.'' @ key else ''device.'' @ path @ ''.'' @ key)"

definition processState :: "environment \<Rightarrow> string \<Rightarrow> string \<Rightarrow> json \<Rightarrow> world \<Rightarrow> world" where
  "processState E path key v w =
     (let stateName = state_name path key;
          w1 = emit (Processing stateName v) w;
          w2 = w1\<lparr>deviceStates := (deviceStates w1)(stateName := Some (Some v))\<rparr>
      in case process_try E stateName v w2 of
           (None, w3) \<Rightarrow> w3
         | (Some e, w3) \<Rightarrow>
             (emit (Log Err (''Error processing state '' @ stateName)) w3)
               \<lparr>disableAdapter := True\<rparr>)"

text \<open>Line 292.\<close>

definition new_path :: "string \<Rightarrow> string \<Rightarrow> string" where
  "new_path path key = (if path = [] then key else path @ ''.'' @ key)"

text \<open>Lines 371 to 375: \<^verbatim>\<open>Object.keys(null)\<close> throws, the outer \<^verbatim>\<open>catch\<close> stops the adapter.\<close>

definition sync_failed :: "world \<Rightarrow> world" where
  "sync_failed w = (emit (Log Err ''Error syncing states'') w)\<lparr>disableAdapter := True\<rparr>"

text \<open>
  \<open>syncState\<close> (lines 285 to 376). \<open>syncState_keys\<close> is the loop over the keys of an
  object, \<open>syncState_elems\<close> the same loop over the indices of an array. Inside a
  document only objects and \<^verbatim>\<open>null\<close> reach \<open>syncState\<close>; a response body can be any
  value. The keys of a string are the indices of its characters (bytes here), the values
  its one-character strings; a number and a boolean have no keys.
\<close>

fun syncState :: "environment \<Rightarrow> json \<Rightarrow> string \<Rightarrow> world \<Rightarrow> world"
  and syncState_keys :: "environment \<Rightarrow> (string \<times> json) list \<Rightarrow> string \<Rightarrow> world \<Rightarrow> world"
  and syncState_elems :: "environment \<Rightarrow> nat \<Rightarrow> json list \<Rightarrow> string \<Rightarrow> world \<Rightarrow> world" where
  "syncState E (JObj fs) path w = syncState_keys E fs path w"
| "syncState E JNull path w = sync_failed w"
| "syncState E (JArr xs) path w = syncState_elems E 0 xs path w"
| "syncState E (JStr s) path w =
     fold (\<lambda>(i, c). processState E path (show_nat i) (JStr [c])) (enumerate 0 s) w"
| "syncState E (JNum n) path w = w"
| "syncState E (JBool b) path w = w"
| "syncState_keys E [] path w = w"
| "syncState_keys E ((key, v) # rest) path w =
     syncState_keys E rest path
       (if object_not_array v then syncState E v (new_path path key) w
        else processState E path key v w)"
| "syncState_elems E i [] path w = w"
| "syncState_elems E i (v # rest) path w =
     syncState_elems E (Suc i) rest path
       (if object_not_array v then syncState E v (new_path path (show_nat i)) w
        else processState E path (show_nat i) v w)"

section \<open>Polling (pollDeviceStatus, updateConnectionStatus)\<close>

definition nonce_missing :: "world \<Rightarrow> world" where
  "nonce_missing w = emit (Log Warn ''Nonce not found in the response'') w"

text \<open>Lines 181 to 194: the nonce of the raw response.\<close>

definition nonce_from_response ::
  "environment \<Rightarrow> json \<Rightarrow> world \<Rightarrow> js_error option \<times> world" where
  "nonce_from_response E result w =
     (case get_prop result ''meta'' of
        Inl e \<Rightarrow> (Some e, w)
      | Inr None \<Rightarrow> (None, nonce_missing w)
      | Inr (Some m) \<Rightarrow>
          if truthy m then
            (case get_prop m ''nonce'' of
               Inl e \<Rightarrow> (Some e, w)
             | Inr None \<Rightarrow> (None, nonce_missing w)
             | Inr (Some n) \<Rightarrow>
                 if truthy n then
                   (None, if \<not> strict_eq_opt (nonce w) n then update_nonce E n w else w)
                 else (None, nonce_missing w))
          else (None, nonce_missing w))"

definition connection_error :: "world \<Rightarrow> world" where
  "connection_error w =
     (emit (Log Err ''Error retrieving status'') w)
       \<lparr>noOfConnectionErrors := Suc (noOfConnectionErrors w)\<rparr>"

text \<open>Lines 154 to 206: the request and the \<^verbatim>\<open>try\<close> around it.\<close>

definition poll_request :: "environment \<Rightarrow> world \<Rightarrow> world" where
  "poll_request E w =
     (case date_now E w of
        (t, w1) \<Rightarrow>
          (case axios E (HttpGet (''http://'' @ fireplaceAddress E @ ''/status.cgi?ts='' @
                           show_int t)) w1 of
             (Inl e, w2) \<Rightarrow> connection_error w2
           | (Inr resp, w2) \<Rightarrow>
               if status resp = 200 then
                 (case nonce_from_response E (data resp) (w2\<lparr>noOfConnectionErrors := 0\<rparr>) of
                    (Some e, w3) \<Rightarrow> connection_error w3
                  | (None, w3) \<Rightarrow> syncState E (data resp) [] w3)
               else connection_error w2))"

text \<open>
  \<open>updateConnectionStatus\<close> (lines 220 to 282) sends three queries to the host and
  checks the versions; the callbacks of the queries run later, when the host answers.
\<close>

definition check_versions :: "environment \<Rightarrow> world \<Rightarrow> world" where
  "check_versions E w =
     (case (hw_version w, sw_version w) of
        (Some hw, Some sw) \<Rightarrow>
          if \<not> supportedHwSwVersions E (toString hw @ ''_'' @ toString sw) then
            (emit (Log Err ''Hardware / Software combination is not supported by this adapter!'') w)
              \<lparr>disableAdapter := True\<rparr>
          else w
      | _ \<Rightarrow> w)"

definition updateConnectionStatus :: "environment \<Rightarrow> world \<Rightarrow> world" where
  "updateConnectionStatus E w =
     (let w1 = (if noOfConnectionErrors w > 0
                then emit (Log Err ''There was an error getting the device status'') w else w);
          w2 = emit (GetState ''info.connection'') w1;
          w3 = emit (GetState ''info.missing_state'') w2;
          w4 = check_versions E w3
      in emit (GetState ''info.terminated'') w4)"

definition changed :: "host_state option \<Rightarrow> bool \<Rightarrow> bool" where
  "changed st b = (case st of None \<Rightarrow> True | Some s \<Rightarrow> \<not> strict_eq (val s) (JBool b))"

definition connection_callback :: "environment \<Rightarrow> host_state option \<Rightarrow> world \<Rightarrow> world" where
  "connection_callback E st w =
     (let connectionSuccessful = (noOfConnectionErrors w = 0) in
      if disableAdapter w then setState E ''info.connection'' (JBool False) True w
      else if changed st connectionSuccessful
        then setState E ''info.connection'' (JBool connectionSuccessful) True w
      else w)"

definition missing_state_callback :: "environment \<Rightarrow> host_state option \<Rightarrow> world \<Rightarrow> world" where
  "missing_state_callback E st w =
     (if changed st (missingState w)
      then setState E ''info.missing_state'' (JBool (missingState w)) True w else w)"

definition terminated_callback :: "environment \<Rightarrow> host_state option \<Rightarrow> world \<Rightarrow> world" where
  "terminated_callback E st w =
     (let w1 = (if changed st (disableAdapter w)
                then setState E ''info.terminated'' (JBool (disableAdapter w)) True w else w)
      in if disableAdapter w1
         then emit (Log Err ''Some critical error occurred (see log). Disabling the adapter'') w1
         else w1)"

text \<open>
  The host answers the three queries in the order they were sent, each with the state it
  holds then, once the poll cycle that sent them has come to its end.
\<close>

definition answer_queries :: "environment \<Rightarrow> world \<Rightarrow> world" where
  "answer_queries E w =
     (let w1 = connection_callback E (host_states w (fixId E ''info.connection'')) w;
          w2 = missing_state_callback E (host_states w1 (fixId E ''info.missing_state'')) w1
      in terminated_callback E (host_states w2 (fixId E ''info.terminated'')) w2)"

definition pollDeviceStatus :: "environment \<Rightarrow> world \<Rightarrow> world" where
  "pollDeviceStatus E w =
     (let w1 = clearTimeout w;
          w2 = poll_request E w1;
          w3 = updateConnectionStatus E w2;
          w4 = (if \<not> disableAdapter w3 then setTimeout (pollingInterval E * 1000) w3 else w3)
      in answer_queries E w4)"

section \<open>Authenticated requests\<close>

text \<open>\<open>createHeader\<close> (lines 395 to 410).\<close>

definition createHeader ::
  "environment \<Rightarrow> json \<Rightarrow> world \<Rightarrow> js_error + (string \<times> header_field) list" where
  "createHeader E post_data w =
     (case byteLength post_data of
        Inl e \<Rightarrow> Inl e
      | Inr n \<Rightarrow>
          Inr [(''Host'', HStr (fireplaceAddress E)),
               (''Accept'', HStr ''*/*''),
               (''Proxy-Connection'', HStr ''keep-alive''),
               (''X-BACKEND-IP'', HStr ''https://app.haassohn.com''),
               (''Accept-Language'', HStr ''de-DE;q=1.0, en-DE;q=0.9''),
               (''Accept-Encoding'', HStr ''gzip, deflate''),
               (''token'', HStr ''32bytes''),
               (''Content-Type'', HStr ''application/json''),
               (''Content-Length'', HNum n),
               (''User-Agent'', HStr ''ios''),
               (''Connection'', HStr ''keep-alive''),
               (''X-HS-PIN'', (case hspin w of None \<Rightarrow> HUndefined | Some h \<Rightarrow> HStr h))])"

text \<open>\<open>validateAndRefreshNonce\<close> (lines 429 to 437).\<close>

definition validateAndRefreshNonce :: "environment \<Rightarrow> world \<Rightarrow> world" where
  "validateAndRefreshNonce E w =
     (case date_now E w of
        (currentTime, w1) \<Rightarrow>
          if \<not> truthy_opt (nonce w1) \<or> currentTime - nonceTimestamp w1 > nonceExpiryTime
          then pollDeviceStatus E w1
          else w1)"

text \<open>
  \<open>makeAuthenticatedRequest\<close> (lines 413 to 426). The options are the URL, the data and
  the headers the caller built (the method is always POST).
\<close>

record request_options =
  req_url :: string
  req_data :: json
  req_headers :: "(string \<times> header_field) list"

definition makeAuthenticatedRequest ::
  "environment \<Rightarrow> request_options \<Rightarrow> world \<Rightarrow> (js_error + response) \<times> world" where
  "makeAuthenticatedRequest E options w =
     (let w1 = validateAndRefreshNonce E w in
      case createHeader E (req_data options) w1 of
        Inl e \<Rightarrow> (Inl e, w1)
      | Inr h \<Rightarrow>
          axios E (HttpPost (req_url options) (req_data options)
                     (req_headers (options\<lparr>req_headers := h\<rparr>))) w1)"

section \<open>Commands (handleStateChange)\<close>

definition command_failed :: "world \<Rightarrow> world" where
  "command_failed w = emit (Log Err ''Error executing stateChange (command)'') w"

text \<open>Lines 124 to 142: the \<^verbatim>\<open>try\<close> that sends the command and acknowledges it.\<close>

definition command_try ::
  "environment \<Rightarrow> host_state \<Rightarrow> json \<Rightarrow> string \<Rightarrow> world \<Rightarrow> world" where
  "command_try E st post_data stateToAcknowledge w =
     (case createHeader E (JStr (stringify post_data)) w of
        Inl e \<Rightarrow> command_failed w
      | Inr h \<Rightarrow>
          (case makeAuthenticatedRequest E
                  \<lparr>req_url = ''http://'' @ fireplaceAddress E @ ''/status.cgi'',
                   req_data = post_data, req_headers = h\<rparr> w of
             (Inl e, w1) \<Rightarrow> command_failed w1
           | (Inr resp, w1) \<Rightarrow>
               if status resp = 200 then
                 (case setStateAsync E (namespace E @ ''.'' @ stateToAcknowledge)
                         (val st) True w1 of
                    (Some e, w2) \<Rightarrow> command_failed w2
                  | (None, w2) \<Rightarrow> w2)
               else emit (Log Err ''stateChange (command) was not successful'') w1))"

text \<open>Lines 124 to 145: the command, then a poll.\<close>

definition send_command ::
  "environment \<Rightarrow> host_state \<Rightarrow> json \<Rightarrow> string \<Rightarrow> world \<Rightarrow> world" where
  "send_command E st post_data stateToAcknowledge w =
     pollDeviceStatus E (command_try E st post_data stateToAcknowledge w)"

text \<open>\<open>handleStateChange\<close> (lines 83 to 147); a deleted state is \<open>None\<close>.\<close>

definition handleStateChange ::
  "environment \<Rightarrow> string \<Rightarrow> host_state option \<Rightarrow> world \<Rightarrow> world" where
  "handleStateChange E ident state w =
     (case state of
        None \<Rightarrow> w
      | Some st \<Rightarrow>
          if ack st then w
          else if ident = namespace E @ ''.device.prg'' then
            send_command E st (JObj [(''prg'', val st)]) ''device.prg'' w
          else if ident = namespace E @ ''.device.sp_temp'' then
            send_command E st (JObj [(''sp_temp'', val st)]) ''device.sp_temp'' w
          else if ident = namespace E @ ''.device.eco_mode'' then
            (case getStateAsync E ''device.meta.eco_editable'' w of
               (Inl e, w1) \<Rightarrow> emit (Log Err ''Error getting eco_editable state'') w1
             | (Inr ecoEditableState, w1) \<Rightarrow>
                 if (case ecoEditableState of None \<Rightarrow> False | Some es \<Rightarrow> truthy (val es))
                 then send_command E st (JObj [(''eco_mode'', val st)]) ''device.eco_mode'' w1
                 else emit (Log Warn
                        ''Eco mode is not editable. Ignoring command to change eco mode.'') w1)
          else emit (Log Warn (''Unhandled state change for '' @ ident)) w)"

section \<open>The life of the adapter\<close>

text \<open>\<open>initialize\<close> (lines 56 to 65) and \<open>terminate\<close> (lines 68 to 80).\<close>

definition initialize :: "environment \<Rightarrow> world \<Rightarrow> world" where
  "initialize E w =
     pollDeviceStatus E
       ((emit (SubscribeStates ''*'') w)\<lparr>hpin := Some (calculateHPIN E (pin E))\<rparr>)"

definition terminate :: "world \<Rightarrow> world" where
  "terminate w = clearTimeout w"

text \<open>
  What can happen to the adapter: the host calls \<^verbatim>\<open>ready\<close>, \<^verbatim>\<open>stateChange\<close> or
  \<^verbatim>\<open>unload\<close>, or the pending timer expires and calls \<open>pollDeviceStatus\<close>.
\<close>

datatype occurrence =
    Ready
  | StateChange string "host_state option"
  | TimerExpired
  | Unload

fun react :: "environment \<Rightarrow> occurrence \<Rightarrow> world \<Rightarrow> world" where
  "react E Ready w = initialize E w"
| "react E (StateChange ident state) w = handleStateChange E ident state w"
| "react E TimerExpired w =
     (case timer w of None \<Rightarrow> w | Some ms \<Rightarrow> pollDeviceStatus E (w\<lparr>timer := None\<rparr>))"
| "react E Unload w = terminate w"

definition run :: "environment \<Rightarrow> occurrence list \<Rightarrow> world \<Rightarrow> world" where
  "run E os w = fold (react E) os w"

section \<open>The points of a document\<close>

text \<open>
  \<open>syncState\<close> walks the document; what it does on the way is a sequence of steps, one
  for each atomic value or array it meets (\<open>Point\<close>, with the path, the key and the value)
  and one for each \<^verbatim>\<open>null\<close> it tries to recurse into (\<open>Broken\<close>). \<open>flatten\<close> lists
  the steps in the order of the walk, \<open>sync_item\<close> performs one.
\<close>

datatype item = Point string string json | Broken

fun flatten :: "json \<Rightarrow> string \<Rightarrow> item list"
  and flatten_keys :: "(string \<times> json) list \<Rightarrow> string \<Rightarrow> item list"
  and flatten_elems :: "nat \<Rightarrow> json list \<Rightarrow> string \<Rightarrow> item list" where
  "flatten (JObj fs) path = flatten_keys fs path"
| "flatten JNull path = [Broken]"
| "flatten (JArr xs) path = flatten_elems 0 xs path"
| "flatten (JStr s) path = map (\<lambda>(i, c). Point path (show_nat i) (JStr [c])) (enumerate 0 s)"
| "flatten (JNum n) path = []"
| "flatten (JBool b) path = []"
| "flatten_keys [] path = []"
| "flatten_keys ((key, v) # rest) path =
     (if object_not_array v then flatten v (new_path path key) else [Point path key v])
       @ flatten_keys rest path"
| "flatten_elems i [] path = []"
| "flatten_elems i (v # rest) path =
     (if object_not_array v then flatten v (new_path path (show_nat i))
      else [Point path (show_nat i) v])
       @ flatten_elems (Suc i) rest path"

fun sync_item :: "environment \<Rightarrow> item \<Rightarrow> world \<Rightarrow> world" where
  "sync_item E (Point p k v) w = processState E p k v w"
| "sync_item E Broken w = sync_failed w"

text \<open>The points of a list of steps, by identifier and raw value.\<close>

fun points :: "item list \<Rightarrow> (string \<times> json) list" where
  "points [] = []"
| "points (Point p k v # its) = (state_name p k, v) # points its"
| "points (Broken # its) = points its"

text \<open>The points visited, read off the trace: the \<^verbatim>\<open>Processing state\<close> lines.\<close>

fun visits :: "event list \<Rightarrow> (string \<times> json) list" where
  "visits [] = []"
| "visits (Processing n v # es) = (n, v) # visits es"
| "visits (e # es) = visits es"





subsection \<open>The flattening in the words of the specification\<close>

text \<open>
  A nested mapping that is not an array is recursed into; every other value is a point,
  named by joining \<^verbatim>\<open>device\<close> and the path segments with dots.
\<close>

fun join_dot :: "string list \<Rightarrow> string" where
  "join_dot [] = []"
| "join_dot [s] = s"
| "join_dot (s # t # ts) = s @ ''.'' @ join_dot (t # ts)"

fun spec_points :: "string list \<Rightarrow> json \<Rightarrow> (string \<times> json) list"
  and spec_points_fields :: "string list \<Rightarrow> (string \<times> json) list \<Rightarrow> (string \<times> json) list" where
  "spec_points segs (JObj fs) = spec_points_fields segs fs"
| "spec_points segs v = [(join_dot (''device'' # segs), v)]"
| "spec_points_fields segs [] = []"
| "spec_points_fields segs ((k, v) # rest) =
     spec_points (segs @ [k]) v @ spec_points_fields segs rest"

text \<open>No field of the document, at any depth of nested mappings, is \<^verbatim>\<open>null\<close>.\<close>

fun no_null :: "json \<Rightarrow> bool" and no_null_fields :: "(string \<times> json) list \<Rightarrow> bool" where
  "no_null (JObj fs) = no_null_fields fs"
| "no_null JNull = False"
| "no_null v = True"
| "no_null_fields [] = True"
| "no_null_fields ((k, v) # rest) = (no_null v \<and> no_null_fields rest)"

text \<open>No mapping sits under the empty name at the top of the document.\<close>

fun named_mappings :: "(string \<times> json) list \<Rightarrow> bool" where
  "named_mappings [] = True"
| "named_mappings ((k, JObj gs) # rest) = (k \<noteq> [] \<and> named_mappings rest)"
| "named_mappings ((k, v) # rest) = named_mappings rest"

section \<open>What the steps of the adapter keep\<close>

text \<open>
  \<open>progress w w'\<close>: from \<open>w\<close> to \<open>w'\<close> the two flags were at most raised, \<open>hpin\<close> is the
  same, the counters of requests and host calls did not go down, and no object of the host
  was created or deleted.
\<close>

definition progress :: "world \<Rightarrow> world \<Rightarrow> bool" where
  "progress w w' \<longleftrightarrow>
     (disableAdapter w \<longrightarrow> disableAdapter w') \<and>
     (missingState w \<longrightarrow> missingState w') \<and>
     hpin w' = hpin w \<and>
     requests w \<le> requests w' \<and>
     host_calls w \<le> host_calls w' \<and>
     (\<forall>i. host_objects w' i = None \<longleftrightarrow> host_objects w i = None)"

text \<open>
  \<open>inner P w w'\<close>: moreover the timer is the same, and the trace has only grown, by events
  that satisfy \<open>P\<close>.
\<close>

definition inner :: "(event \<Rightarrow> bool) \<Rightarrow> world \<Rightarrow> world \<Rightarrow> bool" where
  "inner P w w' \<longleftrightarrow>
     progress w w' \<and> timer w' = timer w \<and>
     (\<exists>es. events w' = events w @ es \<and> list_all P es)"

text \<open>
  The events of a host call or the log; those and the \<^verbatim>\<open>Processing state\<close> line; those
  and a GET request.
\<close>

fun host_event :: "event \<Rightarrow> bool" where
  "host_event (Log s m) = True"
| "host_event (GetObject i) = True"
| "host_event (GetState i) = True"
| "host_event (SetState i v a) = True"
| "host_event (SetObject i ob) = True"
| "host_event e = False"

fun local_event :: "event \<Rightarrow> bool" where
  "local_event (Processing n v) = True"
| "local_event e = host_event e"

fun poll_event :: "event \<Rightarrow> bool" where
  "poll_event (HttpGet u) = True"
| "poll_event e = local_event e"

fun is_post :: "event \<Rightarrow> bool" where
  "is_post (HttpPost u d h) = True"
| "is_post e = False"

text \<open>An awaited call to the host was rejected between \<open>w\<close> and \<open>w'\<close>.\<close>

definition faulted :: "environment \<Rightarrow> world \<Rightarrow> world \<Rightarrow> bool" where
  "faulted E w w' \<longleftrightarrow> (\<exists>i. host_calls w \<le> i \<and> i < host_calls w' \<and> host_fault E i)"

text \<open>
  \<open>tried E w threw w'\<close>: what a step with awaited host calls keeps, and that it threw if
  the host rejected one of its calls.
\<close>

definition tried :: "environment \<Rightarrow> world \<Rightarrow> bool \<Rightarrow> world \<Rightarrow> bool" where
  "tried E w threw w' \<longleftrightarrow> inner host_event w w' \<and> (faulted E w w' \<longrightarrow> threw)"

text \<open>What lasts over everything that can happen to the adapter.\<close>

definition lasting :: "world \<Rightarrow> world \<Rightarrow> bool" where
  "lasting w w' \<longleftrightarrow>
     (disableAdapter w \<longrightarrow> disableAdapter w') \<and>
     (missingState w \<longrightarrow> missingState w') \<and>
     (\<forall>i. host_objects w' i = None \<longleftrightarrow> host_objects w i = None)"

text \<open>A disabled adapter has no timer pending.\<close>

definition halted :: "world \<Rightarrow> bool" where
  "halted w \<longleftrightarrow> (disableAdapter w \<longrightarrow> timer w = None)"

text \<open>The events other than the arming of the timer.\<close>

fun calm :: "event \<Rightarrow> bool" where
  "calm (SetTimeout ms) = False"
| "calm e = True"

text \<open>\<open>grown P w w'\<close>: the trace of \<open>w'\<close> is that of \<open>w\<close> and more events, all satisfying \<open>P\<close>.\<close>

definition grown :: "(event \<Rightarrow> bool) \<Rightarrow> world \<Rightarrow> world \<Rightarrow> bool" where
  "grown P w w' \<longleftrightarrow> (\<exists>es. events w' = events w @ es \<and> list_all P es)"

text \<open>The timers armed between \<open>w\<close> and \<open>w'\<close>.\<close>

definition scheduled :: "world \<Rightarrow> world \<Rightarrow> event list" where
  "scheduled w w' = filter (\<lambda>e. \<not> calm e) (drop (length (events w)) (events w'))"

subsection \<open>The health indicators\<close>

text \<open>An identifier of a data point of the device.\<close>

definition device_point :: "string \<Rightarrow> bool" where
  "device_point i \<longleftrightarrow> (\<exists>n. i = ''device.'' @ n)"

text \<open>The writes of a health indicator.\<close>

fun health_write :: "event \<Rightarrow> bool" where
  "health_write (SetState i v a) =
     (i = ''info.connection'' \<or> i = ''info.missing_state'' \<or> i = ''info.terminated'')"
| "health_write e = False"

text \<open>The writes of a health indicator between \<open>w\<close> and \<open>w'\<close>.\<close>

definition health_writes :: "world \<Rightarrow> world \<Rightarrow> event list" where
  "health_writes w w' = filter health_write (drop (length (events w)) (events w'))"

text \<open>
  What a world holds of the health indicators: the writes so far and the three states of
  the host.
\<close>

definition health ::
  "environment \<Rightarrow> world \<Rightarrow> event list \<times> host_state option \<times> host_state option \<times> host_state option" where
  "health E w =
     (filter health_write (events w),
      host_states w (fixId E ''info.connection''),
      host_states w (fixId E ''info.missing_state''),
      host_states w (fixId E ''info.terminated''))"

section \<open>Example surroundings\<close>

text \<open>
  A configuration with the device at 10.0.0.5, the supported version pair \<^verbatim>\<open>1_2\<close>, a
  clock that advances by one at every reading and string reversal in the place of the
  hash; the device's answers and the host's rejections are the two parameters.
\<close>

definition example_environment ::
  "(nat \<Rightarrow> js_error + response) \<Rightarrow> (nat \<Rightarrow> bool) \<Rightarrow> environment" where
  "example_environment net fault =
     \<lparr> fireplaceAddress = ''10.0.0.5'', pin = ''1234'', pollingInterval = 30,
       supportedHwSwVersions = (\<lambda>k. k = ''1_2''), instance_number = 0, md5 = rev,
       clock = (\<lambda>n. 1000 + int n), network = net, host_fault = fault \<rparr>"

definition unreachable_device :: environment where
  "unreachable_device = example_environment (\<lambda>n. Inl NetworkError) (\<lambda>n. False)"

definition device_sending :: "json \<Rightarrow> environment" where
  "device_sending doc =
     example_environment (\<lambda>n. Inr \<lparr>status = 200, data = doc\<rparr>) (\<lambda>n. False)"

definition healthy_device :: environment where
  "healthy_device =
     device_sending (JObj [(''meta'', JObj [(''nonce'', JStr ''abc'')])])"

definition device_zero_nonce :: environment where
  "device_zero_nonce =
     device_sending (JObj [(''meta'', JObj [(''nonce'', JNum 0)])])"

definition unsupported_device :: environment where
  "unsupported_device =
     device_sending (JObj [(''meta'',
       JObj [(''hw_version'', JStr ''1''), (''sw_version'', JStr ''3'')])])"

text \<open>The device answers \<^verbatim>\<open>{a: 1}\<close> and the host rejects every awaited call.\<close>

definition failing_host :: environment where
  "failing_host =
     example_environment (\<lambda>n. Inr \<lparr>status = 200, data = JObj [(''a'', JNum 1)]\<rparr>) (\<lambda>n. True)"

text \<open>Hosts: with nothing, with every object and no state, and two for the eco mode.\<close>

definition fresh_world :: world where
  "fresh_world = initial_world (\<lambda>i. None) (\<lambda>i. None)"

definition host_with_objects :: world where
  "host_with_objects = initial_world (\<lambda>i. None) (\<lambda>i. Some \<lparr>common_write = None\<rparr>)"

definition eco_mode_only :: world where
  "eco_mode_only =
     initial_world (\<lambda>i. None)
       (\<lambda>i. if i = ''haassohn.0.device.eco_mode'' then Some \<lparr>common_write = Some (JBool False)\<rparr>
            else None)"

definition eco_locked :: world where
  "eco_locked =
     initial_world
       (\<lambda>i. if i = ''haassohn.0.device.meta.eco_editable''
            then Some \<lparr>val = JBool False, ack = True\<rparr> else None)
       (\<lambda>i. Some \<lparr>common_write = None\<rparr>)"


section \<open>Lemmas\<close>

subsection \<open>What the steps keep\<close>

lemma progress_refl: "progress w w"
  by (simp add: progress_def)

lemma progress_trans: "progress a b \<Longrightarrow> progress b c \<Longrightarrow> progress a c"
  unfolding progress_def by (elim conjE) simp

lemma inner_progress: "inner P w w' \<Longrightarrow> progress w w'"
  by (simp add: inner_def progress_def)

lemma inner_refl: "inner P w w"
  by (simp add: inner_def progress_refl)

lemma inner_trans: "inner P a b \<Longrightarrow> inner P b c \<Longrightarrow> inner P a c"
  unfolding inner_def by (elim conjE exE) (simp, blast intro: progress_trans)

lemma inner_weaken: "inner P a b \<Longrightarrow> (\<And>e. P e \<Longrightarrow> Q e) \<Longrightarrow> inner Q a b"
  unfolding inner_def by (auto simp: list_all_iff)

lemma inner_emit: "inner P w x \<Longrightarrow> P e \<Longrightarrow> inner P w (emit e x)"
  unfolding inner_def progress_def emit_def by (elim conjE exE) simp

lemma inner_deviceStates: "inner P w x \<Longrightarrow> inner P w (x\<lparr>deviceStates := d\<rparr>)"
  by (simp add: inner_def progress_def)

lemma inner_missing: "inner P w x \<Longrightarrow> inner P w (x\<lparr>missingState := True\<rparr>)"
  by (simp add: inner_def progress_def)

lemma inner_disable: "inner P w x \<Longrightarrow> inner P w (x\<lparr>disableAdapter := True\<rparr>)"
  by (simp add: inner_def progress_def)

lemma inner_store_state: "inner P w x \<Longrightarrow> inner P w (store_state E i v a x)"
  by (simp add: inner_def progress_def store_state_def)

lemma inner_update_nonce: "inner P w x \<Longrightarrow> inner P w (update_nonce E n x)"
  by (simp add: inner_def progress_def update_nonce_def date_now_def)

lemma inner_intercept_nonce: "inner P w x \<Longrightarrow> inner P w (intercept_nonce E s v x)"
  by (simp add: intercept_nonce_def inner_update_nonce)

lemma inner_buffer_versions: "inner P w x \<Longrightarrow> inner P w (buffer_versions s v x)"
  by (simp add: buffer_versions_def inner_def progress_def)

lemmas inner_wrap = inner_deviceStates inner_missing inner_disable
  inner_store_state inner_update_nonce inner_intercept_nonce inner_buffer_versions

lemma faulted_split: "faulted E a c \<Longrightarrow> faulted E a b \<or> faulted E b c"
  unfolding faulted_def by (metis not_le_imp_less)

lemma tried_host_call:
  "host_call E e x = (b, w') \<Longrightarrow> host_event e \<Longrightarrow> tried E x b w'"
  by (auto simp: tried_def inner_def progress_def faulted_def host_call_def emit_def less_Suc_eq_le)

lemma tried_getObjectAsync: "getObjectAsync E i x = (r, w') \<Longrightarrow> tried E x (isl r) w'"
  by (auto simp: getObjectAsync_def split: prod.splits bool.splits dest!: tried_host_call)

lemma tried_getStateAsync: "getStateAsync E i x = (r, w') \<Longrightarrow> tried E x (isl r) w'"
  by (auto simp: getStateAsync_def split: prod.splits bool.splits dest!: tried_host_call)

lemma tried_store: "tried E x b w' \<Longrightarrow> tried E x b (store_state E' i v a w')"
  by (auto simp: tried_def inner_def progress_def faulted_def store_state_def)

lemma tried_setStateAsync: "setStateAsync E i v a x = (r, w') \<Longrightarrow> tried E x (r \<noteq> None) w'"
  by (auto simp: setStateAsync_def split: prod.splits bool.splits
      dest!: tried_host_call intro: tried_store)

lemma tried_setObjectAsync:
  "setObjectAsync E i ob x = (r, w') \<Longrightarrow> host_objects x (fixId E i) \<noteq> None \<Longrightarrow>
   tried E x (r \<noteq> None) w'"
  by (auto simp: setObjectAsync_def host_call_def emit_def tried_def inner_def progress_def faulted_def
      less_Suc_eq_le split: prod.splits bool.splits if_splits)

lemma tried_refl: "tried E w b w"
  by (auto simp: tried_def inner_refl faulted_def)

lemma tried_seq:
  "tried E a b1 x \<Longrightarrow> tried E x b2 c \<Longrightarrow> \<not> b1 \<Longrightarrow> tried E a b2 c"
  unfolding tried_def by (blast intro: inner_trans dest: faulted_split)

lemma tried_pure:
  "tried E a b x \<Longrightarrow> inner host_event x c \<Longrightarrow> host_calls c = host_calls x \<Longrightarrow> tried E a b c"
  unfolding tried_def
  by (metis faulted_def inner_trans)

lemma host_calls_intercept_nonce [simp]:
  "host_calls (intercept_nonce E s v w) = host_calls w"
  by (simp add: intercept_nonce_def update_nonce_def date_now_def)

lemma host_calls_buffer_versions [simp]:
  "host_calls (buffer_versions s v w) = host_calls w"
  by (simp add: buffer_versions_def)

lemma tried_publish: "publish E s c v x = (r, w') \<Longrightarrow> tried E x (r \<noteq> None) w'"
  by (auto simp: publish_def tried_refl split: option.splits if_splits dest: tried_setStateAsync)

lemma tried_sync_existing:
  assumes "sync_existing E s x = (r, w')"
  shows "tried E x (r \<noteq> None) w'"
proof -
  obtain a x1 where g: "getStateAsync E s x = (a, x1)"
    by (cases "getStateAsync E s x")
  then have t1: "tried E x (isl a) x1" by (rule tried_getStateAsync)
  show ?thesis
  proof (cases a)
    case (Inl e)
    with assms g t1 show ?thesis by (auto simp: sync_existing_def)
  next
    case (Inr currentState)
    show ?thesis
    proof (cases "\<exists>v. deviceStates x1 s = Some (Some v)")
      case False
      with assms g Inr have "r = Some TypeError" "w' = x1"
        by (auto simp: sync_existing_def split: option.splits)
      with t1 show ?thesis by (simp add: tried_def)
    next
      case True
      then obtain v where v: "deviceStates x1 s = Some (Some v)" by blast
      define x4 where "x4 = buffer_versions s (coerce v) (intercept_nonce E s (coerce v)
        (x1\<lparr>deviceStates := (deviceStates x1)(s := Some None)\<rparr>))"
      have i4: "inner host_event x1 x4" unfolding x4_def
        by (intro inner_wrap inner_refl)
      have "host_calls x4 = host_calls x1" by (simp add: x4_def)
      with t1 i4 have t4: "tried E x (isl a) x4" by (rule tried_pure)
      have "publish E s currentState (coerce v) x4 = (r, w')"
        using assms g Inr v by (simp add: sync_existing_def x4_def Let_def)
      then have "tried E x4 (r \<noteq> None) w'" by (rule tried_publish)
      with t4 Inr show ?thesis by (auto intro: tried_seq)
    qed
  qed
qed

lemma getObjectAsync_Some:
  "getObjectAsync E i w = (Inr (Some ob), w') \<Longrightarrow> host_objects w' (fixId E i) \<noteq> None"
  by (auto simp: getObjectAsync_def host_call_def emit_def split: prod.splits bool.splits if_splits)

lemma tried_eco_editable_special:
  assumes "eco_editable_special E s v x = (r, w')"
  shows "tried E x (r \<noteq> None) w'"
proof (cases "s = ''device.meta.eco_editable''")
  case False
  with assms show ?thesis by (simp add: eco_editable_special_def tried_refl)
next
  case True
  obtain a x1 where g: "getObjectAsync E ''device.eco_mode'' x = (a, x1)"
    by (cases "getObjectAsync E ''device.eco_mode'' x")
  then have t1: "tried E x (isl a) x1" by (rule tried_getObjectAsync)
  show ?thesis
  proof (cases a)
    case (Inl e)
    with assms True g t1 show ?thesis by (auto simp: eco_editable_special_def)
  next
    case (Inr ob)
    show ?thesis
    proof (cases ob)
      case None
      with assms True g t1 Inr show ?thesis by (simp add: eco_editable_special_def tried_def)
    next
      case (Some obj)
      with assms True g Inr
      have "setObjectAsync E ''device.eco_mode'' (obj\<lparr>common_write := Some v\<rparr>) x1 = (r, w')"
        by (simp add: eco_editable_special_def)
      moreover have "host_objects x1 (fixId E ''device.eco_mode'') \<noteq> None"
        using g Inr Some by (auto dest: getObjectAsync_Some)
      ultimately have "tried E x1 (r \<noteq> None) w'" by (rule tried_setObjectAsync)
      with t1 Inr show ?thesis by (auto intro: tried_seq)
    qed
  qed
qed

lemma tried_process_try:
  assumes "process_try E s v x = (r, w')"
  shows "tried E x (r \<noteq> None) w'"
proof -
  obtain a x1 where g: "getObjectAsync E s x = (a, x1)"
    by (cases "getObjectAsync E s x")
  then have t1: "tried E x (isl a) x1" by (rule tried_getObjectAsync)
  show ?thesis
  proof (cases a)
    case (Inl e)
    with assms g t1 show ?thesis by (auto simp: process_try_def)
  next
    case (Inr ob)
    define branch where "branch =
      (case ob of Some ob' \<Rightarrow> sync_existing E s x1
       | None \<Rightarrow> (None, (emit (Log Warn (''State '' @ s @
                        '' does not exist. Please open an issue on GitHub.'')) x1)
                        \<lparr>missingState := True\<rparr>))"
    obtain b x2 where br: "branch = (b, x2)" by (cases branch)
    have "tried E x1 (b \<noteq> None) x2"
    proof (cases ob)
      case None
      with br have "b = None" "x2 = (emit (Log Warn (''State '' @ s @
                        '' does not exist. Please open an issue on GitHub.'')) x1)
                        \<lparr>missingState := True\<rparr>"
        by (simp_all add: branch_def)
      then show ?thesis
        by (simp add: tried_def faulted_def emit_def inner_def progress_def)
    next
      case (Some ob')
      with br have "sync_existing E s x1 = (b, x2)" by (simp add: branch_def)
      then show ?thesis by (rule tried_sync_existing)
    qed
    with t1 Inr have t2: "tried E x (b \<noteq> None) x2" by (auto intro: tried_seq)
    have step: "(case b of Some e \<Rightarrow> (Some e, x2) | None \<Rightarrow> eco_editable_special E s v x2) = (r, w')"
      using assms g Inr br unfolding process_try_def branch_def by (simp split: option.splits)
    show ?thesis
    proof (cases b)
      case None
      with step have "eco_editable_special E s v x2 = (r, w')" by simp
      then have "tried E x2 (r \<noteq> None) w'" by (rule tried_eco_editable_special)
      with t2 None show ?thesis by (auto intro: tried_seq)
    next
      case (Some e)
      with step t2 show ?thesis by auto
    qed
  qed
qed

lemma processState_cases:
  obtains r x3 where
    "process_try E (state_name p k) v
       ((emit (Processing (state_name p k) v) x)
          \<lparr>deviceStates := (deviceStates x)(state_name p k := Some (Some v))\<rparr>) = (r, x3)"
    "processState E p k v x = (case r of None \<Rightarrow> x3
      | Some e \<Rightarrow> (emit (Log Err (''Error processing state '' @ state_name p k)) x3)
               \<lparr>disableAdapter := True\<rparr>)"
proof -
  obtain r x3 where t: "process_try E (state_name p k) v
       ((emit (Processing (state_name p k) v) x)
          \<lparr>deviceStates := (deviceStates x)(state_name p k := Some (Some v))\<rparr>) = (r, x3)"
    by (cases "process_try E (state_name p k) v
       ((emit (Processing (state_name p k) v) x)
          \<lparr>deviceStates := (deviceStates x)(state_name p k := Some (Some v))\<rparr>)")
  moreover have "processState E p k v x = (case r of None \<Rightarrow> x3
      | Some e \<Rightarrow> (emit (Log Err (''Error processing state '' @ state_name p k)) x3)
               \<lparr>disableAdapter := True\<rparr>)"
    using t unfolding processState_def Let_def by (simp add: emit_def)
  ultimately show ?thesis by (rule that)
qed

lemma inner_processState: "inner local_event x (processState E p k v x)"
proof -
  obtain r x3 where t: "process_try E (state_name p k) v
       ((emit (Processing (state_name p k) v) x)
          \<lparr>deviceStates := (deviceStates x)(state_name p k := Some (Some v))\<rparr>) = (r, x3)"
    and eq: "processState E p k v x = (case r of None \<Rightarrow> x3
      | Some e \<Rightarrow> (emit (Log Err (''Error processing state '' @ state_name p k)) x3)
               \<lparr>disableAdapter := True\<rparr>)"
    by (rule processState_cases)
  have p0: "inner local_event x ((emit (Processing (state_name p k) v) x)
          \<lparr>deviceStates := (deviceStates x)(state_name p k := Some (Some v))\<rparr>)"
    by (intro inner_wrap inner_emit inner_refl) simp
  from t have "inner host_event ((emit (Processing (state_name p k) v) x)
          \<lparr>deviceStates := (deviceStates x)(state_name p k := Some (Some v))\<rparr>) x3"
    using tried_process_try tried_def by blast
  then have "inner local_event ((emit (Processing (state_name p k) v) x)
          \<lparr>deviceStates := (deviceStates x)(state_name p k := Some (Some v))\<rparr>) x3"
    by (rule inner_weaken) (case_tac e; simp)
  with p0 have p3: "inner local_event x x3" by (rule inner_trans)
  show ?thesis unfolding eq using p3
    by (auto split: option.splits intro!: inner_wrap inner_emit)
qed

lemma faulted_processState:
  assumes "faulted E x (processState E p k v x)"
  shows "disableAdapter (processState E p k v x)"
proof -
  obtain r x3 where t: "process_try E (state_name p k) v
       ((emit (Processing (state_name p k) v) x)
          \<lparr>deviceStates := (deviceStates x)(state_name p k := Some (Some v))\<rparr>) = (r, x3)"
    and eq: "processState E p k v x = (case r of None \<Rightarrow> x3
      | Some e \<Rightarrow> (emit (Log Err (''Error processing state '' @ state_name p k)) x3)
               \<lparr>disableAdapter := True\<rparr>)"
    by (rule processState_cases)
  have "faulted E ((emit (Processing (state_name p k) v) x)
          \<lparr>deviceStates := (deviceStates x)(state_name p k := Some (Some v))\<rparr>) x3"
    using assms unfolding eq by (auto simp: faulted_def emit_def split: option.splits)
  with tried_process_try [OF t] have "r \<noteq> None" by (simp add: tried_def)
  then show ?thesis unfolding eq by auto
qed

lemma sync_item_Point: "sync_item E (Point p k v) = processState E p k v"
  by (rule ext) simp

lemma syncState_flatten:
  "syncState E doc path w = fold (sync_item E) (flatten doc path) w"
  "syncState_keys E fs path w = fold (sync_item E) (flatten_keys fs path) w"
  "syncState_elems E i xs path w = fold (sync_item E) (flatten_elems i xs path) w"
proof (induction E doc path w and E fs path w and E i xs path w
    rule: syncState_syncState_keys_syncState_elems.induct)
  case (4 E s path w)
  show ?case by (simp add: fold_map comp_def case_prod_unfold sync_item_Point)
qed simp_all

lemma inner_sync_item: "inner local_event x (sync_item E it x)"
proof (cases it)
  case (Point p k v)
  then show ?thesis by (simp add: inner_processState)
next
  case Broken
  then show ?thesis
    by (simp add: sync_failed_def inner_disable inner_emit inner_refl)
qed

lemma inner_fold: "inner local_event x (fold (sync_item E) its x)"
proof (induction its arbitrary: x)
  case Nil
  show ?case by (simp add: inner_refl)
next
  case (Cons it its)
  show ?case using inner_trans [OF inner_sync_item Cons.IH] by simp
qed

lemma faulted_sync_item: "faulted E x (sync_item E it x) \<Longrightarrow> disableAdapter (sync_item E it x)"
  by (cases it) (auto simp: faulted_processState sync_failed_def)

lemma faulted_fold:
  "faulted E x (fold (sync_item E) its x) \<Longrightarrow> disableAdapter (fold (sync_item E) its x)"
proof (induction its arbitrary: x)
  case Nil
  then show ?case by (auto simp: faulted_def)
next
  case (Cons it its)
  from Cons.prems have "faulted E x (sync_item E it x) \<or>
      faulted E (sync_item E it x) (fold (sync_item E) its (sync_item E it x))"
    by (auto dest: faulted_split)
  then show ?case
  proof
    assume "faulted E x (sync_item E it x)"
    then have "disableAdapter (sync_item E it x)" by (rule faulted_sync_item)
    moreover have "progress (sync_item E it x) (fold (sync_item E) its (sync_item E it x))"
      using inner_fold by (rule inner_progress)
    ultimately show ?thesis by (simp add: progress_def)
  next
    assume "faulted E (sync_item E it x) (fold (sync_item E) its (sync_item E it x))"
    then show ?thesis using Cons.IH by simp
  qed
qed

subsection \<open>A poll cycle\<close>

lemma local_event_host: "host_event e \<Longrightarrow> local_event e"
  by (cases e) simp_all

lemma poll_event_local: "local_event e \<Longrightarrow> poll_event e"
  by (cases e) simp_all

lemma inner_nonce_from_response:
  "nonce_from_response E result x = (r, w') \<Longrightarrow> inner host_event x w'"
  unfolding nonce_from_response_def nonce_missing_def
  by (auto split: sum.splits option.splits if_splits
      intro!: inner_emit inner_update_nonce inner_refl)

lemma inner_noOfConnectionErrors:
  "inner P w x \<Longrightarrow> inner P w (x\<lparr>noOfConnectionErrors := n\<rparr>)"
  by (simp add: inner_def progress_def)

lemma connection_error_facts:
  "inner poll_event x (connection_error x)"
  "requests (connection_error x) = requests x"
  by (simp_all add: connection_error_def inner_def progress_def emit_def)

lemma inner_syncState: "inner local_event x (syncState E doc path x)"
  by (simp add: syncState_flatten inner_fold)

lemma inner_axios:
  "axios E e x = (r, w') \<Longrightarrow> P e \<Longrightarrow> inner P x w' \<and> requests w' = Suc (requests x)"
  by (auto simp: axios_def inner_def progress_def emit_def)

lemma inner_date_now: "date_now E x = (t, w') \<Longrightarrow> inner P x w'"
  by (auto simp: date_now_def inner_def progress_def)

lemma inner_poll_request:
  "inner poll_event x (poll_request E x) \<and> requests x < requests (poll_request E x)"
proof -
  obtain t x1 where d: "date_now E x = (t, x1)" by (cases "date_now E x")
  then have i1: "inner poll_event x x1" by (rule inner_date_now)
  obtain r x2 where a: "axios E (HttpGet (''http://'' @ fireplaceAddress E @ ''/status.cgi?ts='' @
                           show_int t)) x1 = (r, x2)"
    by (cases "axios E (HttpGet (''http://'' @ fireplaceAddress E @ ''/status.cgi?ts='' @
                           show_int t)) x1")
  then have i2: "inner poll_event x1 x2" and r2: "requests x2 = Suc (requests x1)"
    using inner_axios [of E _ x1 r x2 poll_event] by simp_all
  from i1 i2 have i: "inner poll_event x x2" by (rule inner_trans)
  from i1 r2 have q: "requests x < requests x2" by (simp add: inner_def progress_def)
  have "inner poll_event x2 (poll_request E x) \<and> requests x2 \<le> requests (poll_request E x)"
  proof (cases r)
    case (Inl e)
    with d a have "poll_request E x = connection_error x2" by (simp add: poll_request_def)
    then show ?thesis
      by (simp add: connection_error_facts)
  next
    case (Inr resp)
    show ?thesis
    proof (cases "status resp = 200")
      case False
      with d a Inr have "poll_request E x = connection_error x2" by (simp add: poll_request_def)
      then show ?thesis
        by (simp add: connection_error_facts)
    next
      case True
      obtain e x3 where n: "nonce_from_response E (data resp) (x2\<lparr>noOfConnectionErrors := 0\<rparr>) = (e, x3)"
        by (cases "nonce_from_response E (data resp) (x2\<lparr>noOfConnectionErrors := 0\<rparr>)")
      then have "inner host_event (x2\<lparr>noOfConnectionErrors := 0\<rparr>) x3"
        by (rule inner_nonce_from_response)
      then have "inner poll_event (x2\<lparr>noOfConnectionErrors := 0\<rparr>) x3"
        by (rule inner_weaken) (simp add: local_event_host poll_event_local)
      moreover have "inner poll_event x2 (x2\<lparr>noOfConnectionErrors := 0\<rparr>)"
        by (intro inner_noOfConnectionErrors inner_refl)
      ultimately have i3: "inner poll_event x2 x3" by (blast intro: inner_trans)
      have i4: "inner poll_event x3 (poll_request E x)"
      proof (cases e)
        case None
        with d a Inr True n have "poll_request E x = syncState E (data resp) [] x3"
          by (simp add: poll_request_def)
        then show ?thesis
          using inner_weaken [OF inner_syncState, of poll_event] by (simp add: poll_event_local)
      next
        case (Some err)
        with d a Inr True n have "poll_request E x = connection_error x3"
          by (simp add: poll_request_def)
        then show ?thesis by (simp add: connection_error_facts)
      qed
      with i3 have "inner poll_event x2 (poll_request E x)" by (rule inner_trans)
      then show ?thesis by (simp add: inner_def progress_def)
    qed
  qed
  with i q show ?thesis by (auto intro: inner_trans)
qed

lemma inner_check_versions: "inner P w x \<Longrightarrow>
  P (Log Err ''Hardware / Software combination is not supported by this adapter!'') \<Longrightarrow>
  inner P w (check_versions E x)"
  unfolding check_versions_def
  by (auto split: option.splits intro!: inner_disable inner_emit)

lemma inner_updateConnectionStatus: "inner host_event x (updateConnectionStatus E x)"
  unfolding updateConnectionStatus_def Let_def
  by (intro inner_emit inner_check_versions) (simp_all add: inner_emit inner_refl)

lemma inner_setState: "inner P w x \<Longrightarrow> P (SetState i v a) \<Longrightarrow> inner P w (setState E i v a x)"
  unfolding setState_def by (intro inner_store_state inner_emit)

lemma inner_connection_callback: "inner host_event x (connection_callback E st x)"
  unfolding connection_callback_def Let_def
  by (auto intro!: inner_setState inner_refl)

lemma inner_missing_state_callback: "inner host_event x (missing_state_callback E st x)"
  unfolding missing_state_callback_def
  by (auto intro!: inner_setState inner_refl)

lemma inner_terminated_callback: "inner host_event x (terminated_callback E st x)"
  unfolding terminated_callback_def Let_def
  by (auto intro!: inner_setState inner_refl inner_emit)

lemma inner_answer_queries: "inner host_event x (answer_queries E x)"
  unfolding answer_queries_def Let_def
  by (blast intro: inner_trans inner_connection_callback inner_missing_state_callback
      inner_terminated_callback)

lemma flags_setState [simp]:
  "disableAdapter (setState E i v a w) = disableAdapter w"
  "missingState (setState E i v a w) = missingState w"
  "noOfConnectionErrors (setState E i v a w) = noOfConnectionErrors w"
  by (simp_all add: setState_def store_state_def emit_def)

lemma disableAdapter_answer_queries [simp]:
  "disableAdapter (answer_queries E w) = disableAdapter w"
  by (simp add: answer_queries_def connection_callback_def missing_state_callback_def
      terminated_callback_def Let_def emit_def)

lemma pollDeviceStatus_facts:
  "progress w (pollDeviceStatus E w)"
  "requests w < requests (pollDeviceStatus E w)"
  "timer (pollDeviceStatus E w) =
     (if disableAdapter (pollDeviceStatus E w) then None else Some (pollingInterval E * 1000))"
proof -
  define w1 where "w1 = clearTimeout w"
  define w2 where "w2 = poll_request E w1"
  define w3 where "w3 = updateConnectionStatus E w2"
  define w4 where "w4 = (if \<not> disableAdapter w3 then setTimeout (pollingInterval E * 1000) w3 else w3)"
  have eq: "pollDeviceStatus E w = answer_queries E w4"
    by (simp add: pollDeviceStatus_def Let_def w1_def w2_def w3_def w4_def)
  have p1: "progress w w1" "timer w1 = None" "requests w1 = requests w"
    by (simp_all add: w1_def clearTimeout_def emit_def progress_def)
  have i2: "inner poll_event w1 w2" "requests w1 < requests w2"
    using inner_poll_request [of w1 E] by (simp_all add: w2_def)
  have i3: "inner host_event w2 w3" unfolding w3_def by (rule inner_updateConnectionStatus)
  have p4: "progress w3 w4" "timer w4 = (if disableAdapter w4 then timer w3 else Some (pollingInterval E * 1000))"
    by (simp_all add: w4_def setTimeout_def emit_def progress_def)
  have i5: "inner host_event w4 (answer_queries E w4)" by (rule inner_answer_queries)
  from p1(1) i2(1) i3 p4(1) i5 show "progress w (pollDeviceStatus E w)"
    unfolding eq by (blast intro: progress_trans inner_progress)
  from i2 i3 p4(1) i5 p1(3) show "requests w < requests (pollDeviceStatus E w)"
    unfolding eq by (simp add: inner_def progress_def)
  from i2(1) i3 p1(2) have "timer w3 = None" by (simp add: inner_def)
  with p4(2) i5 show "timer (pollDeviceStatus E w) =
     (if disableAdapter (pollDeviceStatus E w) then None else Some (pollingInterval E * 1000))"
    unfolding eq by (simp add: inner_def)
qed

subsection \<open>Commands and the life of the adapter\<close>

lemma validateAndRefreshNonce_progress: "progress w (validateAndRefreshNonce E w)"
proof -
  obtain t w1 where d: "date_now E w = (t, w1)" by (cases "date_now E w")
  then have "inner host_event w w1" by (rule inner_date_now)
  then have p1: "progress w w1" by (rule inner_progress)
  have "validateAndRefreshNonce E w = w1 \<or> validateAndRefreshNonce E w = pollDeviceStatus E w1"
    using d by (simp add: validateAndRefreshNonce_def)
  then show ?thesis
    using p1 pollDeviceStatus_facts(1) [of w1 E] by (auto intro: progress_trans)
qed

lemma progress_axios: "axios E e x = (r, w') \<Longrightarrow> progress x w'"
  by (auto simp: axios_def progress_def emit_def)

lemma makeAuthenticatedRequest_progress:
  "makeAuthenticatedRequest E opts w = (r, w') \<Longrightarrow> progress w w'"
  unfolding makeAuthenticatedRequest_def Let_def
  by (auto split: sum.splits dest!: progress_axios
      intro: progress_trans [OF validateAndRefreshNonce_progress] validateAndRefreshNonce_progress)

lemma progress_emit: "progress w x \<Longrightarrow> progress w (emit e x)"
  by (simp add: progress_def emit_def)

lemma progress_setStateAsync: "setStateAsync E i v a x = (r, w') \<Longrightarrow> progress x w'"
  using tried_setStateAsync by (auto simp: tried_def inner_def)

lemma progress_getStateAsync: "getStateAsync E i x = (r, w') \<Longrightarrow> progress x w'"
  using tried_getStateAsync by (auto simp: tried_def inner_def)

lemma command_try_progress: "progress w (command_try E st post_data s w)"
proof (cases "createHeader E (JStr (stringify post_data)) w")
  case (Inl e)
  then show ?thesis by (simp add: command_try_def command_failed_def progress_emit progress_refl)
next
  case (Inr h)
  obtain r w1 where m: "makeAuthenticatedRequest E
                  \<lparr>req_url = ''http://'' @ fireplaceAddress E @ ''/status.cgi'',
                   req_data = post_data, req_headers = h\<rparr> w = (r, w1)"
    by (cases "makeAuthenticatedRequest E
                  \<lparr>req_url = ''http://'' @ fireplaceAddress E @ ''/status.cgi'',
                   req_data = post_data, req_headers = h\<rparr> w")
  then have p1: "progress w w1" by (rule makeAuthenticatedRequest_progress)
  have "progress w1 (command_try E st post_data s w)"
    using Inr m unfolding command_try_def command_failed_def
    by (auto split: sum.splits prod.splits option.splits
        intro!: progress_emit progress_refl dest: progress_setStateAsync)
  with p1 show ?thesis by (rule progress_trans)
qed

lemma send_command_progress: "progress w (send_command E st post_data s w)"
  unfolding send_command_def
  using command_try_progress pollDeviceStatus_facts(1) by (rule progress_trans)

lemma handleStateChange_progress: "progress w (handleStateChange E ident state w)"
  unfolding handleStateChange_def
  by (auto split: option.splits prod.splits sum.splits
      intro!: send_command_progress progress_refl progress_emit
      dest!: progress_getStateAsync
      intro: progress_trans [OF _ send_command_progress])

lemma progress_lasting: "progress w w' \<Longrightarrow> lasting w w'"
  by (simp add: progress_def lasting_def)

lemma lasting_refl: "lasting w w"
  by (simp add: lasting_def)

lemma lasting_trans: "lasting a b \<Longrightarrow> lasting b c \<Longrightarrow> lasting a c"
  by (simp add: lasting_def)

lemma initialize_lasting: "lasting w (initialize E w)"
proof -
  have "lasting w ((emit (SubscribeStates ''*'') w)\<lparr>hpin := Some (calculateHPIN E (pin E))\<rparr>)"
    by (simp add: lasting_def emit_def)
  then show ?thesis
    unfolding initialize_def
    using progress_lasting [OF pollDeviceStatus_facts(1)] by (rule lasting_trans)
qed

lemma react_lasting: "lasting w (react E occ w)"
proof (cases occ)
  case Ready
  then show ?thesis by (simp add: initialize_lasting)
next
  case (StateChange ident state)
  then show ?thesis by (simp add: progress_lasting handleStateChange_progress)
next
  case TimerExpired
  have "lasting w (w\<lparr>timer := None\<rparr>)" by (simp add: lasting_def)
  then have "lasting w (pollDeviceStatus E (w\<lparr>timer := None\<rparr>))"
    using progress_lasting [OF pollDeviceStatus_facts(1)] by (rule lasting_trans)
  with TimerExpired show ?thesis by (simp add: lasting_refl split: option.splits)
next
  case Unload
  then show ?thesis by (simp add: terminate_def clearTimeout_def emit_def lasting_def)
qed

lemma run_lasting: "lasting w (run E os w)"
  unfolding run_def
proof (induction os arbitrary: w)
  case Nil
  show ?case by (simp add: lasting_refl)
next
  case (Cons occ os)
  show ?case using lasting_trans [OF react_lasting Cons.IH] by simp
qed

lemma pollDeviceStatus_halted [simp]: "halted (pollDeviceStatus E w)"
  by (simp add: halted_def pollDeviceStatus_facts(3))

lemma halted_emit [simp]: "halted (emit e w) = halted w"
  by (simp add: halted_def emit_def)

lemma halted_date_now: "date_now E w = (t, w') \<Longrightarrow> halted w' = halted w"
  by (auto simp: halted_def date_now_def)

lemma halted_getStateAsync: "getStateAsync E i w = (r, w') \<Longrightarrow> halted w' = halted w"
  by (auto simp: halted_def getStateAsync_def host_call_def emit_def split: bool.splits)

lemma validateAndRefreshNonce_halted: "halted w \<Longrightarrow> halted (validateAndRefreshNonce E w)"
  unfolding validateAndRefreshNonce_def
  by (auto split: prod.splits dest: halted_date_now)

lemma handleStateChange_halted: "halted w \<Longrightarrow> halted (handleStateChange E ident state w)"
  unfolding handleStateChange_def send_command_def
  by (auto split: option.splits prod.splits sum.splits dest: halted_getStateAsync)

lemma react_halted: "halted w \<Longrightarrow> halted (react E occ w)"
proof (cases occ)
  case Unload
  then show ?thesis by (simp add: terminate_def clearTimeout_def emit_def halted_def)
qed (auto simp: initialize_def handleStateChange_halted split: option.splits)

lemma run_halted: "halted w \<Longrightarrow> halted (run E os w)"
  unfolding run_def
  by (induction os arbitrary: w) (simp_all add: react_halted)

subsection \<open>The derived PIN hash\<close>

lemma hpin_react:
  "hpin w = Some (md5 E (pin E)) \<Longrightarrow> hpin (react E occ w) = Some (md5 E (pin E))"
proof (cases occ)
  case Ready
  have "hpin (initialize E w) = hpin ((emit (SubscribeStates ''*'') w)\<lparr>hpin := Some (calculateHPIN E (pin E))\<rparr>)"
    unfolding initialize_def using pollDeviceStatus_facts(1) by (simp add: progress_def)
  with Ready show ?thesis by (simp add: calculateHPIN_def)
next
  case (StateChange ident state)
  assume "hpin w = Some (md5 E (pin E))"
  with StateChange show ?thesis
    using handleStateChange_progress [of w E ident state] by (simp add: progress_def)
next
  case TimerExpired
  assume "hpin w = Some (md5 E (pin E))"
  with TimerExpired show ?thesis
    using pollDeviceStatus_facts(1) [of "w\<lparr>timer := None\<rparr>" E]
    by (simp add: progress_def split: option.splits)
next
  case Unload
  assume "hpin w = Some (md5 E (pin E))"
  with Unload show ?thesis by (simp add: terminate_def clearTimeout_def emit_def)
qed

lemma hpin_run:
  "hpin w = Some (md5 E (pin E)) \<Longrightarrow> hpin (run E os w) = Some (md5 E (pin E))"
  unfolding run_def
  by (induction os arbitrary: w) (simp_all add: hpin_react)

lemma hpin_initialize: "hpin (initialize E w) = Some (md5 E (pin E))"
  using hpin_react [of "w\<lparr>hpin := Some (md5 E (pin E))\<rparr>" E Ready]
  by (simp add: initialize_def emit_def calculateHPIN_def)

subsection \<open>The disabled flag\<close>

lemma run_append: "run E (os @ os') w = run E os' (run E os w)"
  by (simp add: run_def)

lemma react_disabled: "disableAdapter w \<Longrightarrow> disableAdapter (react E occ w)"
  using react_lasting [of w E occ] by (simp add: lasting_def)

lemma run_disabled: "disableAdapter w \<Longrightarrow> disableAdapter (run E os w)"
  using run_lasting [of w E os] by (simp add: lasting_def)

lemma unsupported_disables:
  "hw_version w = Some hw \<Longrightarrow> sw_version w = Some sw \<Longrightarrow>
   \<not> supportedHwSwVersions E (toString hw @ ''_'' @ toString sw) \<Longrightarrow>
   disableAdapter (updateConnectionStatus E w)"
  by (simp add: updateConnectionStatus_def check_versions_def emit_def Let_def)

lemma faulted_syncState:
  "faulted E w (syncState E doc path w) \<Longrightarrow> disableAdapter (syncState E doc path w)"
  by (simp add: syncState_flatten faulted_fold)

lemma halted_initial: "halted (initial_world hs ho)"
  by (simp add: halted_def initial_world_def)

lemma disabled_no_timer:
  "disableAdapter (run E os (initial_world hs ho)) \<Longrightarrow>
   disableAdapter (run E (os @ os') (initial_world hs ho)) \<and>
   timer (run E (os @ os') (initial_world hs ho)) = None"
proof -
  assume d: "disableAdapter (run E os (initial_world hs ho))"
  then have "disableAdapter (run E (os @ os') (initial_world hs ho))"
    by (simp add: run_append run_disabled)
  moreover have "halted (run E (os @ os') (initial_world hs ho))"
    by (rule run_halted) (rule halted_initial)
  ultimately show ?thesis by (simp add: halted_def)
qed

subsection \<open>The freshness of the nonce\<close>

lemma poll_iff_requests:
  "requests (validateAndRefreshNonce E w) \<noteq> requests w \<longleftrightarrow>
   (\<not> truthy_opt (nonce w) \<or> clock E (clock_reads w) - nonceTimestamp w > 3600000)"
  using pollDeviceStatus_facts(2) [of "w\<lparr>clock_reads := Suc (clock_reads w)\<rparr>" E]
  by (simp add: validateAndRefreshNonce_def date_now_def nonceExpiryTime_def)

lemma validateAndRefreshNonce_cases:
  "validateAndRefreshNonce E w =
     (if \<not> truthy_opt (nonce w) \<or> clock E (clock_reads w) - nonceTimestamp w > 3600000
      then pollDeviceStatus E (w\<lparr>clock_reads := Suc (clock_reads w)\<rparr>)
      else w\<lparr>clock_reads := Suc (clock_reads w)\<rparr>)"
  by (simp add: validateAndRefreshNonce_def date_now_def nonceExpiryTime_def)

subsection \<open>Missing objects\<close>

lemma host_states_eco_editable_special:
  "eco_editable_special E s v x = (r, w') \<Longrightarrow> host_states w' = host_states x"
  by (auto simp: eco_editable_special_def getObjectAsync_def setObjectAsync_def host_call_def
      emit_def split: if_splits prod.splits sum.splits option.splits bool.splits)

lemma missing_object_flagged:
  assumes none: "host_objects w (fixId E (state_name p k)) = None"
    and ok: "\<not> host_fault E (host_calls w)"
  shows "missingState (processState E p k v w)"
    and "host_objects (processState E p k v w) (fixId E (state_name p k)) = None"
    and "host_states (processState E p k v w) = host_states w"
proof -
  define x2 where "x2 = (emit (Processing (state_name p k) v) w)
          \<lparr>deviceStates := (deviceStates w)(state_name p k := Some (Some v))\<rparr>"
  define x3 where "x3 = (emit (Log Warn (''State '' @ state_name p k @
      '' does not exist. Please open an issue on GitHub.'')) ((emit (GetObject (state_name p k)) x2)
         \<lparr>host_calls := Suc (host_calls x2)\<rparr>))\<lparr>missingState := True\<rparr>"
  obtain r x4 where e: "eco_editable_special E (state_name p k) v x3 = (r, x4)"
    by (cases "eco_editable_special E (state_name p k) v x3")
  have g: "getObjectAsync E (state_name p k) x2 =
      (Inr None, (emit (GetObject (state_name p k)) x2)\<lparr>host_calls := Suc (host_calls x2)\<rparr>)"
    using none ok by (simp add: getObjectAsync_def host_call_def x2_def emit_def)
  have t: "process_try E (state_name p k) v x2 = (r, x4)"
    using g e by (simp add: process_try_def x3_def)
  have eq: "processState E p k v w = (case r of None \<Rightarrow> x4
      | Some e \<Rightarrow> (emit (Log Err (''Error processing state '' @ state_name p k)) x4)
               \<lparr>disableAdapter := True\<rparr>)"
    using t unfolding processState_def Let_def x2_def by (simp add: emit_def)
  from e have "tried E x3 (r \<noteq> None) x4" by (rule tried_eco_editable_special)
  then have "missingState x4" by (simp add: tried_def inner_def progress_def x3_def)
  then show "missingState (processState E p k v w)"
    unfolding eq by (simp add: emit_def split: option.splits)
  show "host_objects (processState E p k v w) (fixId E (state_name p k)) = None"
    using none inner_progress [OF inner_processState, of w E p k v] by (simp add: progress_def)
  from e have "host_states x4 = host_states x3" by (rule host_states_eco_editable_special)
  then show "host_states (processState E p k v w) = host_states w"
    unfolding eq by (simp add: emit_def x3_def x2_def split: option.splits)
qed

lemma missing_point_flagged:
  assumes "\<forall>n. \<not> host_fault E n"
    and "Point p k v \<in> set its"
    and "host_objects w (fixId E (state_name p k)) = None"
  shows "missingState (fold (sync_item E) its w)"
  using assms(2,3)
proof (induction its arbitrary: w)
  case Nil
  then show ?case by simp
next
  case (Cons it its)
  have keep: "progress (sync_item E it w) (fold (sync_item E) its (sync_item E it w))"
    using inner_fold by (rule inner_progress)
  show ?case
  proof (cases "it = Point p k v")
    case True
    then have "missingState (sync_item E it w)"
      using Cons.prems(2) assms(1) by (simp add: missing_object_flagged(1))
    with keep show ?thesis by (simp add: progress_def)
  next
    case False
    with Cons.prems have "Point p k v \<in> set its" by simp
    moreover have "host_objects (sync_item E it w) (fixId E (state_name p k)) = None"
      using Cons.prems(2) inner_progress [OF inner_sync_item, of w E it]
      by (simp add: progress_def)
    ultimately show ?thesis using Cons.IH by simp
  qed
qed

lemma run_missingState: "missingState w \<Longrightarrow> missingState (run E os w)"
  using run_lasting [of w E os] by (simp add: lasting_def)

subsection \<open>The eco mode\<close>

lemma eco_mode_written:
  assumes "host_objects w (fixId E ''device.meta.eco_editable'') = None"
    and "host_objects w (fixId E ''device.eco_mode'') = Some obj"
    and "\<not> host_fault E (host_calls w)"
    and "\<not> host_fault E (Suc (host_calls w))"
    and "\<not> host_fault E (Suc (Suc (host_calls w)))"
  shows "processState E ''meta'' ''eco_editable'' v w =
     w\<lparr>deviceStates := (deviceStates w)(''device.meta.eco_editable'' := Some (Some v)),
       missingState := True,
       host_objects := (host_objects w)(fixId E ''device.eco_mode'' \<mapsto> obj\<lparr>common_write := Some v\<rparr>),
       host_calls := host_calls w + 3,
       events := events w @
         [Processing ''device.meta.eco_editable'' v,
          GetObject ''device.meta.eco_editable'',
          Log Warn ''State device.meta.eco_editable does not exist. Please open an issue on GitHub.'',
          GetObject ''device.eco_mode'',
          SetObject ''device.eco_mode'' (obj\<lparr>common_write := Some v\<rparr>)]\<rparr>"
  using assms
  by (simp add: processState_def process_try_def eco_editable_special_def getObjectAsync_def
      setObjectAsync_def host_call_def emit_def state_name_def Let_def)

lemma syncState_eco_editable:
  "\<not> object_not_array v \<Longrightarrow>
   syncState E (JObj [(''meta'', JObj [(''eco_editable'', v)])]) [] w =
     processState E ''meta'' ''eco_editable'' v w"
  by (simp add: new_path_def)

lemma eco_command_dropped:
  assumes "host_states w (fixId E ''device.meta.eco_editable'') = Some es"
    and "\<not> truthy (val es)" and "\<not> ack st" and "\<not> host_fault E (host_calls w)"
  shows "handleStateChange E (namespace E @ ''.device.eco_mode'') (Some st) w =
     w\<lparr>host_calls := Suc (host_calls w),
       events := events w @ [GetState ''device.meta.eco_editable'',
         Log Warn ''Eco mode is not editable. Ignoring command to change eco mode.'']\<rparr>"
  using assms
  by (simp add: handleStateChange_def getStateAsync_def host_call_def emit_def)

subsection \<open>The headers of a command\<close>

lemma createHeader_object: "createHeader E (JObj fs) w = Inl TypeError"
  by (simp add: createHeader_def)

lemma createHeader_string:
  "\<exists>h. createHeader E (JStr body) w = Inr h \<and>
       map_of h ''Content-Length'' = Some (HNum (length body)) \<and>
       map_of h ''Host'' = Some (HStr (fireplaceAddress E)) \<and>
       map_of h ''X-HS-PIN'' = Some (case hspin w of None \<Rightarrow> HUndefined | Some s \<Rightarrow> HStr s)"
  by (simp add: createHeader_def)

lemma makeAuthenticatedRequest_object:
  "req_data opts = JObj fs \<Longrightarrow>
   makeAuthenticatedRequest E opts w = (Inl TypeError, validateAndRefreshNonce E w)"
  by (simp add: makeAuthenticatedRequest_def createHeader_object Let_def)

lemma command_try_object:
  "command_try E st (JObj fs) s w = command_failed (validateAndRefreshNonce E w)"
  by (simp add: command_try_def makeAuthenticatedRequest_object createHeader_def)

subsection \<open>The points visited\<close>

lemma visits_append: "visits (a @ b) = visits a @ visits b"
  by (induction a rule: visits.induct) simp_all

lemma visits_host_events: "list_all host_event es \<Longrightarrow> visits es = []"
  by (induction es rule: visits.induct) simp_all

lemma visits_inner: "inner host_event x y \<Longrightarrow> visits (events y) = visits (events x)"
  by (auto simp: inner_def visits_append visits_host_events)

lemma visits_processState:
  "visits (events (processState E p k v x)) = visits (events x) @ [(state_name p k, v)]"
proof -
  define x2 where "x2 = (emit (Processing (state_name p k) v) x)
          \<lparr>deviceStates := (deviceStates x)(state_name p k := Some (Some v))\<rparr>"
  obtain r x3 where t: "process_try E (state_name p k) v x2 = (r, x3)"
    and eq: "processState E p k v x = (case r of None \<Rightarrow> x3
      | Some e \<Rightarrow> (emit (Log Err (''Error processing state '' @ state_name p k)) x3)
               \<lparr>disableAdapter := True\<rparr>)"
    unfolding x2_def by (rule processState_cases)
  from tried_process_try [OF t] have "inner host_event x2 x3" by (simp add: tried_def)
  then have "visits (events x3) = visits (events x2)" by (rule visits_inner)
  then show ?thesis
    unfolding eq by (simp add: x2_def emit_def visits_append split: option.splits)
qed

lemma visits_sync_item:
  "visits (events (sync_item E it x)) = visits (events x) @ points [it]"
  by (cases it) (simp_all add: visits_processState sync_failed_def emit_def visits_append)

lemma points_append: "points (a @ b) = points a @ points b"
  by (induction a rule: points.induct) simp_all

lemma visits_fold:
  "visits (events (fold (sync_item E) its x)) = visits (events x) @ points its"
proof (induction its arbitrary: x)
  case Nil
  show ?case by simp
next
  case (Cons it its)
  have "points (it # its) = points [it] @ points its"
    using points_append [of "[it]" its] by simp
  then show ?case by (simp add: Cons.IH visits_sync_item)
qed

lemma visits_syncState:
  "visits (events (syncState E doc path x)) = visits (events x) @ points (flatten doc path)"
  by (simp add: syncState_flatten visits_fold)

lemma join_dot_snoc: "segs \<noteq> [] \<Longrightarrow> join_dot (segs @ [k]) = join_dot segs @ ''.'' @ k"
  by (induction segs rule: join_dot.induct) simp_all

lemma join_dot_snoc_nonempty: "segs \<noteq> [] \<Longrightarrow> join_dot (segs @ [k]) \<noteq> []"
  by (simp add: join_dot_snoc)

lemma new_path_join:
  "segs \<noteq> [] \<Longrightarrow> join_dot segs \<noteq> [] \<Longrightarrow> new_path (join_dot segs) k = join_dot (segs @ [k])"
  by (simp add: new_path_def join_dot_snoc)

lemma state_name_join:
  "segs \<noteq> [] \<Longrightarrow> join_dot segs \<noteq> [] \<Longrightarrow>
   state_name (join_dot segs) k = join_dot (''device'' # segs @ [k])"
proof -
  assume ne: "segs \<noteq> []" "join_dot segs \<noteq> []"
  then have "join_dot (''device'' # segs) = ''device.'' @ join_dot segs"
    by (cases segs) simp_all
  then have "join_dot ((''device'' # segs) @ [k]) = ''device.'' @ join_dot segs @ ''.'' @ k"
    using join_dot_snoc [of "''device'' # segs" k] by simp
  with ne show ?thesis by (simp add: state_name_def)
qed

lemma points_nested:
  "(no_null v \<longrightarrow> segs \<noteq> [] \<longrightarrow> join_dot segs \<noteq> [] \<longrightarrow>
      (if object_not_array v then points (flatten v (join_dot segs))
       else [(join_dot (''device'' # segs), v)]) = spec_points segs v)"
  "(no_null_fields fs \<longrightarrow> segs \<noteq> [] \<longrightarrow> join_dot segs \<noteq> [] \<longrightarrow>
      points (flatten_keys fs (join_dot segs)) = spec_points_fields segs fs)"
proof (induction segs v and segs fs rule: spec_points_spec_points_fields.induct)
  case (4 segs k v rest)
  show ?case
  proof (intro impI)
    assume nn: "no_null_fields ((k, v) # rest)" and ne: "segs \<noteq> []" "join_dot segs \<noteq> []"
    have a: "new_path (join_dot segs) k = join_dot (segs @ [k])"
      using ne by (rule new_path_join)
    have b: "state_name (join_dot segs) k = join_dot (''device'' # segs @ [k])"
      using ne by (rule state_name_join)
    have c: "join_dot (segs @ [k]) \<noteq> []" using ne(1) by (rule join_dot_snoc_nonempty)
    have "(if object_not_array v then points (flatten v (join_dot (segs @ [k])))
       else [(join_dot (''device'' # segs @ [k]), v)]) = spec_points (segs @ [k]) v"
      using "4.IH"(1) nn c by simp
    moreover have "points (flatten_keys rest (join_dot segs)) = spec_points_fields segs rest"
      using "4.IH"(2) nn ne by simp
    ultimately show "points (flatten_keys ((k, v) # rest) (join_dot segs)) =
        spec_points_fields segs ((k, v) # rest)"
      by (cases "object_not_array v") (simp_all add: a b points_append)
  qed
qed simp_all

lemma points_top:
  "no_null_fields fs \<Longrightarrow> named_mappings fs \<Longrightarrow>
   points (flatten_keys fs []) = spec_points_fields [] fs"
proof (induction fs)
  case Nil
  show ?case by simp
next
  case (Cons kv rest)
  obtain k v where kv: "kv = (k, v)" by (cases kv)
  from Cons.prems kv have nn: "no_null v" and nr: "no_null_fields rest" by simp_all
  from Cons.prems(2) kv have nm: "named_mappings rest" by (cases v) simp_all
  from Cons.IH nr nm have IH: "points (flatten_keys rest []) = spec_points_fields [] rest"
    by simp
  show ?case
  proof (cases v)
    case (JObj gs)
    with Cons.prems(2) kv have "k \<noteq> []" by simp
    with nn JObj have "points (flatten (JObj gs) (join_dot [k])) = spec_points [k] (JObj gs)"
      using points_nested(1) [of "JObj gs" "[k]"] by simp
    with JObj kv IH show ?thesis by (simp add: points_append new_path_def)
  next
    case JNull
    with nn show ?thesis by simp
  next
    case (JBool b)
    with kv IH show ?thesis by (simp add: state_name_def)
  next
    case (JNum n)
    with kv IH show ?thesis by (simp add: state_name_def)
  next
    case (JStr s)
    with kv IH show ?thesis by (simp add: state_name_def)
  next
    case (JArr xs)
    with kv IH show ?thesis by (simp add: state_name_def)
  qed
qed

lemma visits_example:
  "visits (events (syncState E
      (JObj [(''a'', JObj [(''b'', JNum 1), (''c'', JArr [JNum 1, JNum 2])])]) [] w)) =
   visits (events w) @ [(''device.a.b'', JNum 1), (''device.a.c'', JArr [JNum 1, JNum 2])]"
  by (simp only: visits_syncState) (simp add: new_path_def state_name_def)

lemma coerce_example: "coerce (JNum 1) = JNum 1 \<and> coerce (JArr [JNum 1, JNum 2]) = JStr ''[1,2]''"
  by code_simp

lemma events_example:
  "events (syncState unreachable_device
      (JObj [(''a'', JObj [(''b'', JNum 1), (''c'', JArr [JNum 1, JNum 2])])]) []
      host_with_objects) =
   [Processing ''device.a.b'' (JNum 1), GetObject ''device.a.b'', GetState ''device.a.b'',
    SetState ''device.a.b'' (JNum 1) True,
    Processing ''device.a.c'' (JArr [JNum 1, JNum 2]), GetObject ''device.a.c'',
    GetState ''device.a.c'', SetState ''device.a.c'' (JStr ''[1,2]'') True]"
  by code_simp

lemma visits_spec:
  "no_null_fields fs \<Longrightarrow> named_mappings fs \<Longrightarrow>
   visits (events (syncState E (JObj fs) [] w)) = visits (events w) @ spec_points_fields [] fs"
  by (simp only: visits_syncState) (simp add: points_top)

subsection \<open>Publishing once\<close>



lemma fixId_device: "fixId E (''device.'' @ n) = namespace E @ ''.device.'' @ n"
  by (simp add: fixId_def starts_with_def namespace_def)



lemma frame_intercept_nonce [simp]:
  "host_states (intercept_nonce E s v w) = host_states w"
  "host_objects (intercept_nonce E s v w) = host_objects w"
  "events (intercept_nonce E s v w) = events w"
  by (simp_all add: intercept_nonce_def update_nonce_def date_now_def)

lemma frame_buffer_versions [simp]:
  "host_states (buffer_versions s v w) = host_states w"
  "host_objects (buffer_versions s v w) = host_objects w"
  "events (buffer_versions s v w) = events w"
  by (simp_all add: buffer_versions_def)














subsection \<open>No timer is armed for a disabled adapter\<close>

lemma grown_refl: "grown P w w"
  by (simp add: grown_def)

lemma grown_trans: "grown P a b \<Longrightarrow> grown P b c \<Longrightarrow> grown P a c"
  unfolding grown_def by (elim exE conjE) simp

lemma grown_emit: "grown P w x \<Longrightarrow> P e \<Longrightarrow> grown P w (emit e x)"
  unfolding grown_def emit_def by (elim exE conjE) simp

lemma inner_grown: "inner P w w' \<Longrightarrow> (\<And>e. P e \<Longrightarrow> Q e) \<Longrightarrow> grown Q w w'"
  by (auto simp: inner_def grown_def list_all_iff)

lemma calm_poll_event: "poll_event e \<Longrightarrow> calm e"
  by (cases e) simp_all

lemma calm_host_event: "host_event e \<Longrightarrow> calm e"
  by (cases e) simp_all

lemma grown_scheduled: "grown calm w w' \<Longrightarrow> scheduled w w' = []"
  by (auto simp: grown_def scheduled_def list_all_iff)

lemma pollDeviceStatus_calm:
  assumes "disableAdapter w"
  shows "grown calm w (pollDeviceStatus E w)"
proof -
  define w1 where "w1 = clearTimeout w"
  define w2 where "w2 = poll_request E w1"
  define w3 where "w3 = updateConnectionStatus E w2"
  have d1: "disableAdapter w1" using assms by (simp add: w1_def clearTimeout_def emit_def)
  have i2: "inner poll_event w1 w2" using inner_poll_request [of w1 E] by (simp add: w2_def)
  have i3: "inner host_event w2 w3" unfolding w3_def by (rule inner_updateConnectionStatus)
  from d1 i2 i3 have d3: "disableAdapter w3" by (simp add: inner_def progress_def)
  then have eq: "pollDeviceStatus E w = answer_queries E w3"
    by (simp add: pollDeviceStatus_def Let_def w1_def w2_def w3_def)
  have "grown calm w w1" by (simp add: w1_def clearTimeout_def emit_def grown_def)
  moreover have "grown calm w1 w2" using i2 by (rule inner_grown) (rule calm_poll_event)
  moreover have "grown calm w2 w3" using i3 by (rule inner_grown) (rule calm_host_event)
  moreover have "grown calm w3 (answer_queries E w3)"
    using inner_answer_queries by (rule inner_grown) (rule calm_host_event)
  ultimately show ?thesis unfolding eq by (blast intro: grown_trans)
qed

lemma validateAndRefreshNonce_calm:
  assumes "disableAdapter w"
  shows "grown calm w (validateAndRefreshNonce E w)"
proof -
  define w1 where "w1 = w\<lparr>clock_reads := Suc (clock_reads w)\<rparr>"
  have g: "grown calm w w1" and d: "disableAdapter w1"
    using assms by (simp_all add: w1_def grown_def)
  have "validateAndRefreshNonce E w = w1 \<or> validateAndRefreshNonce E w = pollDeviceStatus E w1"
    by (simp add: validateAndRefreshNonce_def date_now_def w1_def)
  with g pollDeviceStatus_calm [OF d, of E] show ?thesis by (auto intro: grown_trans)
qed

lemma grown_axios: "axios E e x = (r, w') \<Longrightarrow> P e \<Longrightarrow> grown P x w'"
  by (auto simp: axios_def grown_def emit_def)

lemma grown_setStateAsync: "setStateAsync E i v a x = (r, w') \<Longrightarrow> grown calm x w'"
  using tried_setStateAsync inner_grown calm_host_event unfolding tried_def by blast

lemma grown_getStateAsync: "getStateAsync E i x = (r, w') \<Longrightarrow> grown calm x w'"
  using tried_getStateAsync inner_grown calm_host_event unfolding tried_def by blast

lemma command_try_calm:
  assumes "disableAdapter w"
  shows "grown calm w (command_try E st post_data s w)"
proof (cases "createHeader E (JStr (stringify post_data)) w")
  case (Inl e)
  then show ?thesis by (simp add: command_try_def command_failed_def grown_emit grown_refl)
next
  case (Inr h)
  define w1 where "w1 = validateAndRefreshNonce E w"
  have g1: "grown calm w w1" unfolding w1_def using assms by (rule validateAndRefreshNonce_calm)
  obtain r w2 where m: "makeAuthenticatedRequest E
                  \<lparr>req_url = ''http://'' @ fireplaceAddress E @ ''/status.cgi'',
                   req_data = post_data, req_headers = h\<rparr> w = (r, w2)"
    by (cases "makeAuthenticatedRequest E
                  \<lparr>req_url = ''http://'' @ fireplaceAddress E @ ''/status.cgi'',
                   req_data = post_data, req_headers = h\<rparr> w")
  then have "grown calm w1 w2"
    unfolding makeAuthenticatedRequest_def Let_def w1_def [symmetric]
    by (auto split: sum.splits simp: grown_refl dest!: grown_axios [where P = calm])
  with g1 have g2: "grown calm w w2" by (rule grown_trans)
  have "grown calm w2 (command_try E st post_data s w)"
    using Inr m unfolding command_try_def command_failed_def
    by (auto split: sum.splits prod.splits option.splits
        intro!: grown_emit grown_refl dest: grown_setStateAsync)
  with g2 show ?thesis by (rule grown_trans)
qed

lemma send_command_calm:
  assumes "disableAdapter w"
  shows "grown calm w (send_command E st post_data s w)"
proof -
  have "disableAdapter (command_try E st post_data s w)"
    using assms command_try_progress [of w E st post_data s] by (simp add: progress_def)
  then have "grown calm (command_try E st post_data s w) (send_command E st post_data s w)"
    unfolding send_command_def by (rule pollDeviceStatus_calm)
  with command_try_calm [OF assms] show ?thesis by (rule grown_trans)
qed

lemma disabled_getStateAsync: "getStateAsync E i x = (r, w') \<Longrightarrow> disableAdapter x \<Longrightarrow> disableAdapter w'"
  by (auto dest!: progress_getStateAsync simp: progress_def)

lemma handleStateChange_calm:
  assumes "disableAdapter w"
  shows "grown calm w (handleStateChange E ident state w)"
  using assms unfolding handleStateChange_def
  by (auto split: option.splits prod.splits sum.splits
      intro!: send_command_calm grown_refl grown_emit
      dest: grown_getStateAsync
      intro: grown_trans [OF grown_getStateAsync send_command_calm] disabled_getStateAsync)

lemma react_calm:
  assumes "disableAdapter w"
  shows "grown calm w (react E occ w)"
proof (cases occ)
  case Ready
  define w1 where "w1 = (emit (SubscribeStates ''*'') w)\<lparr>hpin := Some (calculateHPIN E (pin E))\<rparr>"
  have "grown calm w w1" "disableAdapter w1"
    using assms by (simp_all add: w1_def emit_def grown_def)
  with pollDeviceStatus_calm [of w1 E] Ready show ?thesis
    by (auto simp: initialize_def w1_def intro: grown_trans)
next
  case (StateChange ident state)
  with assms show ?thesis by (simp add: handleStateChange_calm)
next
  case TimerExpired
  have "grown calm w (w\<lparr>timer := None\<rparr>)" "disableAdapter (w\<lparr>timer := None\<rparr>)"
    using assms by (simp_all add: grown_def)
  with pollDeviceStatus_calm [of "w\<lparr>timer := None\<rparr>" E] TimerExpired show ?thesis
    by (auto simp: grown_refl split: option.splits intro: grown_trans)
next
  case Unload
  then show ?thesis by (simp add: terminate_def clearTimeout_def emit_def grown_def)
qed

lemma run_calm: "disableAdapter w \<Longrightarrow> grown calm w (run E os w)"
proof (induction os arbitrary: w)
  case Nil
  show ?case by (simp add: run_def grown_refl)
next
  case (Cons occ os)
  have "disableAdapter (react E occ w)" using Cons.prems by (rule react_disabled)
  then have "grown calm (react E occ w) (run E os (react E occ w))" by (rule Cons.IH)
  with react_calm [OF Cons.prems, of E occ] show ?case
    by (simp add: run_def grown_trans)
qed

lemma disabled_never_scheduled:
  "disableAdapter (run E os (initial_world hs ho)) \<Longrightarrow>
   scheduled (run E os (initial_world hs ho)) (run E (os @ os') (initial_world hs ho)) = []"
  by (simp add: run_append run_calm grown_scheduled)

subsection \<open>The health indicators\<close>

text \<open>
  What the steps of a poll cycle before the three callbacks of \<open>updateConnectionStatus\<close>
  leave alone, what the callbacks write, and the cycle as a whole.
\<close>

lemma changed_iff: "changed st b \<longleftrightarrow> (case st of None \<Rightarrow> True | Some s \<Rightarrow> val s \<noteq> JBool b)"
proof (cases st)
  case None
  then show ?thesis by (simp add: changed_def)
next
  case (Some s)
  then show ?thesis by (cases "val s") (auto simp: changed_def)
qed

lemma fixId_info:
  "fixId E ''info.connection'' = namespace E @ ''.info.connection''"
  "fixId E ''info.missing_state'' = namespace E @ ''.info.missing_state''"
  "fixId E ''info.terminated'' = namespace E @ ''.info.terminated''"
  by (simp_all add: fixId_def starts_with_def namespace_def)

lemma health_emit: "\<not> health_write e \<Longrightarrow> health E (emit e w) = health E w"
  by (simp add: health_def emit_def)

lemma health_store_state:
  assumes "device_point i"
  shows "health E (store_state E i v a w) = health E w"
proof -
  from assms obtain n where n: "i = ''device.'' @ n" by (auto simp: device_point_def)
  show ?thesis unfolding n health_def store_state_def fixId_device fixId_info by simp
qed

lemma health_write_device: "device_point i \<Longrightarrow> \<not> health_write (SetState i v a)"
  by (auto simp: device_point_def)

lemma health_host_call:
  "host_call E e w = (b, w') \<Longrightarrow> \<not> health_write e \<Longrightarrow> health E w' = health E w"
  by (auto simp: host_call_def health_def emit_def)

lemma health_getObjectAsync: "getObjectAsync E i w = (r, w') \<Longrightarrow> health E w' = health E w"
  by (auto simp: getObjectAsync_def split: prod.splits bool.splits dest!: health_host_call)

lemma health_getStateAsync: "getStateAsync E i w = (r, w') \<Longrightarrow> health E w' = health E w"
  by (auto simp: getStateAsync_def split: prod.splits bool.splits dest!: health_host_call)

lemma health_setStateAsync:
  assumes "setStateAsync E i v a w = (r, w')" and dp: "device_point i"
  shows "health E w' = health E w"
proof -
  obtain b x1 where c: "host_call E (SetState i v a) w = (b, x1)"
    by (cases "host_call E (SetState i v a) w")
  then have h1: "health E x1 = health E w"
    using health_write_device [OF dp] by (rule health_host_call)
  from assms(1) c have "w' = x1 \<or> w' = store_state E i v a x1"
    by (auto simp: setStateAsync_def split: bool.splits)
  with h1 health_store_state [OF dp] show ?thesis by auto
qed

lemma health_setObjectAsync:
  "setObjectAsync E i ob w = (r, w') \<Longrightarrow> health E w' = health E w"
  by (auto simp: setObjectAsync_def split: prod.splits bool.splits dest!: health_host_call)
    (simp add: health_def)

lemma health_frame:
  "events w' = events w \<Longrightarrow> host_states w' = host_states w \<Longrightarrow> health E w' = health E w"
  by (simp add: health_def)

lemma health_publish:
  "publish E i c v w = (r, w') \<Longrightarrow> device_point i \<Longrightarrow> health E w' = health E w"
  by (auto simp: publish_def split: option.splits if_splits dest: health_setStateAsync)

lemma health_sync_existing:
  assumes "sync_existing E i w = (r, w')" and dp: "device_point i"
  shows "health E w' = health E w"
proof -
  obtain a x1 where g: "getStateAsync E i w = (a, x1)"
    by (cases "getStateAsync E i w")
  then have h1: "health E x1 = health E w" by (rule health_getStateAsync)
  show ?thesis
  proof (cases a)
    case (Inl e)
    with assms g h1 show ?thesis by (auto simp: sync_existing_def)
  next
    case (Inr currentState)
    show ?thesis
    proof (cases "\<exists>v. deviceStates x1 i = Some (Some v)")
      case False
      with assms g Inr have "w' = x1"
        by (auto simp: sync_existing_def split: option.splits)
      with h1 show ?thesis by simp
    next
      case True
      then obtain v where v: "deviceStates x1 i = Some (Some v)" by blast
      define x4 where "x4 = buffer_versions i (coerce v)
        (intercept_nonce E i (coerce v)
        (x1\<lparr>deviceStates := (deviceStates x1)(i := Some None)\<rparr>))"
      have h4: "health E x4 = health E x1" unfolding x4_def
        by (rule health_frame) simp_all
      have "publish E i currentState (coerce v) x4 = (r, w')"
        using assms g Inr v by (simp add: sync_existing_def x4_def Let_def)
      then have "health E w' = health E x4" using dp by (rule health_publish)
      with h4 h1 show ?thesis by simp
    qed
  qed
qed

lemma health_eco_editable_special:
  "eco_editable_special E s v w = (r, w') \<Longrightarrow> health E w' = health E w"
  by (auto simp: eco_editable_special_def split: if_splits prod.splits sum.splits option.splits
      dest!: health_getObjectAsync health_setObjectAsync)

lemma health_process_try:
  assumes "process_try E i v w = (r, w')" and dp: "device_point i"
  shows "health E w' = health E w"
proof -
  obtain a x1 where g: "getObjectAsync E i w = (a, x1)"
    by (cases "getObjectAsync E i w")
  then have h1: "health E x1 = health E w" by (rule health_getObjectAsync)
  show ?thesis
  proof (cases a)
    case (Inl e)
    with assms g h1 show ?thesis by (auto simp: process_try_def)
  next
    case (Inr ob)
    define branch where "branch =
      (case ob of Some ob' \<Rightarrow> sync_existing E i x1
       | None \<Rightarrow> (None, (emit (Log Warn (''State '' @ i @
                        '' does not exist. Please open an issue on GitHub.'')) x1)
                        \<lparr>missingState := True\<rparr>))"
    obtain b x2 where br: "branch = (b, x2)" by (cases branch)
    have h2: "health E x2 = health E x1"
    proof (cases ob)
      case None
      with br have "x2 = (emit (Log Warn (''State '' @ i @
                        '' does not exist. Please open an issue on GitHub.'')) x1)
                        \<lparr>missingState := True\<rparr>"
        by (simp_all add: branch_def)
      then show ?thesis by (simp add: health_def emit_def)
    next
      case (Some ob')
      with br have "sync_existing E i x1 = (b, x2)" by (simp add: branch_def)
      then show ?thesis using dp by (rule health_sync_existing)
    qed
    have step: "(case b of Some e \<Rightarrow> (Some e, x2)
        | None \<Rightarrow> eco_editable_special E i v x2) = (r, w')"
      using assms g Inr br unfolding process_try_def branch_def by (simp split: option.splits)
    show ?thesis
    proof (cases b)
      case None
      with step have "eco_editable_special E i v x2 = (r, w')" by simp
      then have "health E w' = health E x2" by (rule health_eco_editable_special)
      with h1 h2 show ?thesis by simp
    next
      case (Some e)
      with step h1 h2 show ?thesis by auto
    qed
  qed
qed

lemma state_name_device: "device_point (state_name p k)"
  by (simp add: state_name_def device_point_def)

lemma health_processState: "health E (processState E p k v x) = health E x"
proof -
  obtain r x3 where t: "process_try E (state_name p k) v
       ((emit (Processing (state_name p k) v) x)
          \<lparr>deviceStates := (deviceStates x)(state_name p k := Some (Some v))\<rparr>) = (r, x3)"
    and eq: "processState E p k v x = (case r of None \<Rightarrow> x3
      | Some e \<Rightarrow> (emit (Log Err (''Error processing state '' @ state_name p k)) x3)
               \<lparr>disableAdapter := True\<rparr>)"
    by (rule processState_cases)
  from t have "health E x3 = health E ((emit (Processing (state_name p k) v) x)
          \<lparr>deviceStates := (deviceStates x)(state_name p k := Some (Some v))\<rparr>)"
    using state_name_device by (rule health_process_try)
  then have "health E x3 = health E x" by (simp add: health_def emit_def)
  then show ?thesis unfolding eq by (simp add: health_def emit_def split: option.splits)
qed

lemma health_sync_item: "health E (sync_item E it x) = health E x"
proof (cases it)
  case (Point p k v)
  then show ?thesis by (simp add: health_processState)
next
  case Broken
  then show ?thesis by (simp add: sync_failed_def health_def emit_def)
qed

lemma health_fold: "health E (fold (sync_item E) its x) = health E x"
  by (induction its arbitrary: x) (simp_all add: health_sync_item)

lemma health_syncState: "health E (syncState E doc path x) = health E x"
  by (simp add: syncState_flatten health_fold)

lemma health_nonce_from_response:
  "nonce_from_response E d w = (r, w') \<Longrightarrow> health E w' = health E w"
  by (auto simp: nonce_from_response_def nonce_missing_def update_nonce_def date_now_def
      health_def emit_def split: sum.splits option.splits if_splits)

lemma health_connection_error: "health E (connection_error w) = health E w"
  by (simp add: connection_error_def health_def emit_def)

lemma health_poll_request: "health E (poll_request E w) = health E w"
proof -
  obtain t x1 where d: "date_now E w = (t, x1)" by (cases "date_now E w")
  then have h1: "health E x1 = health E w" by (auto simp: date_now_def health_def)
  obtain r x2 where a: "axios E (HttpGet (''http://'' @ fireplaceAddress E @ ''/status.cgi?ts='' @
                           show_int t)) x1 = (r, x2)"
    by (cases "axios E (HttpGet (''http://'' @ fireplaceAddress E @ ''/status.cgi?ts='' @
                           show_int t)) x1")
  then have h2: "health E x2 = health E x1" by (auto simp: axios_def health_def emit_def)
  obtain e x3 where n: "nonce_from_response E (case r of Inr resp \<Rightarrow> data resp | _ \<Rightarrow> JNull)
      (x2\<lparr>noOfConnectionErrors := 0\<rparr>) = (e, x3)"
    by (cases "nonce_from_response E (case r of Inr resp \<Rightarrow> data resp | _ \<Rightarrow> JNull)
      (x2\<lparr>noOfConnectionErrors := 0\<rparr>)")
  then have "health E x3 = health E (x2\<lparr>noOfConnectionErrors := 0\<rparr>)"
    by (rule health_nonce_from_response)
  then have h3: "health E x3 = health E x2" by (simp add: health_def)
  have "health E (poll_request E w) = health E x2"
    using d a n h3 unfolding poll_request_def
    by (auto split: sum.splits option.splits
        simp: health_connection_error health_syncState)
  with h1 h2 show ?thesis by simp
qed

lemma health_updateConnectionStatus: "health E (updateConnectionStatus E w) = health E w"
  by (simp add: updateConnectionStatus_def check_versions_def Let_def health_def emit_def
      split: option.splits)

lemma health_clearTimeout: "health E (clearTimeout w) = health E w"
  by (simp add: clearTimeout_def health_def emit_def)

lemma health_setTimeout: "health E (setTimeout ms w) = health E w"
  by (simp add: setTimeout_def health_def emit_def)

lemma fixId_info_distinct:
  "fixId E ''info.connection'' \<noteq> fixId E ''info.missing_state''"
  "fixId E ''info.connection'' \<noteq> fixId E ''info.terminated''"
  "fixId E ''info.missing_state'' \<noteq> fixId E ''info.terminated''"
  "fixId E ''info.missing_state'' \<noteq> fixId E ''info.connection''"
  "fixId E ''info.terminated'' \<noteq> fixId E ''info.connection''"
  "fixId E ''info.terminated'' \<noteq> fixId E ''info.missing_state''"
  unfolding fixId_info by simp_all

lemma flags_answer_queries:
  "missingState (answer_queries E w) = missingState w"
  "noOfConnectionErrors (answer_queries E w) = noOfConnectionErrors w"
  by (simp_all add: answer_queries_def connection_callback_def missing_state_callback_def
      terminated_callback_def Let_def emit_def)

lemma health_answer_queries:
  "health E (answer_queries E w) =
     (filter health_write (events w) @
        (if disableAdapter w then [SetState ''info.connection'' (JBool False) True]
         else if changed (host_states w (fixId E ''info.connection'')) (noOfConnectionErrors w = 0)
           then [SetState ''info.connection'' (JBool (noOfConnectionErrors w = 0)) True]
         else []) @
        (if changed (host_states w (fixId E ''info.missing_state'')) (missingState w)
         then [SetState ''info.missing_state'' (JBool (missingState w)) True] else []) @
        (if changed (host_states w (fixId E ''info.terminated'')) (disableAdapter w)
         then [SetState ''info.terminated'' (JBool (disableAdapter w)) True] else []),
      (if disableAdapter w then Some \<lparr>val = JBool False, ack = True\<rparr>
       else if changed (host_states w (fixId E ''info.connection'')) (noOfConnectionErrors w = 0)
         then Some \<lparr>val = JBool (noOfConnectionErrors w = 0), ack = True\<rparr>
       else host_states w (fixId E ''info.connection'')),
      (if changed (host_states w (fixId E ''info.missing_state'')) (missingState w)
       then Some \<lparr>val = JBool (missingState w), ack = True\<rparr>
       else host_states w (fixId E ''info.missing_state'')),
      (if changed (host_states w (fixId E ''info.terminated'')) (disableAdapter w)
       then Some \<lparr>val = JBool (disableAdapter w), ack = True\<rparr>
       else host_states w (fixId E ''info.terminated'')))"
  by (simp add: health_def answer_queries_def connection_callback_def missing_state_callback_def
      terminated_callback_def setState_def store_state_def emit_def Let_def fixId_info_distinct)


lemma health_writes_health:
  assumes "grown P w w'"
  shows "health_writes w w' = drop (length (filter health_write (events w))) (fst (health E w'))"
proof -
  from assms obtain es where "events w' = events w @ es" by (auto simp: grown_def)
  then show ?thesis by (simp add: health_writes_def health_def)
qed

lemma grown_weaken: "grown P a b \<Longrightarrow> (\<And>e. P e \<Longrightarrow> Q e) \<Longrightarrow> grown Q a b"
  by (auto simp: grown_def list_all_iff)

lemma pollDeviceStatus_health:
  fixes E w
  defines "w' \<equiv> pollDeviceStatus E w"
  shows "health_writes w w' =
     (if disableAdapter w' then [SetState ''info.connection'' (JBool False) True]
      else if changed (host_states w (fixId E ''info.connection'')) (noOfConnectionErrors w' = 0)
        then [SetState ''info.connection'' (JBool (noOfConnectionErrors w' = 0)) True]
      else []) @
     (if changed (host_states w (fixId E ''info.missing_state'')) (missingState w')
      then [SetState ''info.missing_state'' (JBool (missingState w')) True] else []) @
     (if changed (host_states w (fixId E ''info.terminated'')) (disableAdapter w')
      then [SetState ''info.terminated'' (JBool (disableAdapter w')) True] else [])"
    and "host_states w' (fixId E ''info.connection'') =
     (if disableAdapter w' then Some \<lparr>val = JBool False, ack = True\<rparr>
      else if changed (host_states w (fixId E ''info.connection'')) (noOfConnectionErrors w' = 0)
        then Some \<lparr>val = JBool (noOfConnectionErrors w' = 0), ack = True\<rparr>
      else host_states w (fixId E ''info.connection''))"
    and "host_states w' (fixId E ''info.missing_state'') =
     (if changed (host_states w (fixId E ''info.missing_state'')) (missingState w')
      then Some \<lparr>val = JBool (missingState w'), ack = True\<rparr>
      else host_states w (fixId E ''info.missing_state''))"
    and "host_states w' (fixId E ''info.terminated'') =
     (if changed (host_states w (fixId E ''info.terminated'')) (disableAdapter w')
      then Some \<lparr>val = JBool (disableAdapter w'), ack = True\<rparr>
      else host_states w (fixId E ''info.terminated''))"
proof -
  define w1 where "w1 = clearTimeout w"
  define w2 where "w2 = poll_request E w1"
  define w3 where "w3 = updateConnectionStatus E w2"
  define w4 where "w4 = (if \<not> disableAdapter w3 then setTimeout (pollingInterval E * 1000) w3 else w3)"
  have eq: "w' = answer_queries E w4"
    by (simp add: w'_def pollDeviceStatus_def Let_def w1_def w2_def w3_def w4_def)
  have h4: "health E w4 = health E w"
    by (simp add: w4_def w3_def w2_def w1_def health_setTimeout health_updateConnectionStatus
        health_poll_request health_clearTimeout)
  have flags: "disableAdapter w4 = disableAdapter w'" "missingState w4 = missingState w'"
    "noOfConnectionErrors w4 = noOfConnectionErrors w'"
    by (simp_all add: eq flags_answer_queries)
  have st: "host_states w4 (fixId E ''info.connection'') = host_states w (fixId E ''info.connection'')"
    "host_states w4 (fixId E ''info.missing_state'') = host_states w (fixId E ''info.missing_state'')"
    "host_states w4 (fixId E ''info.terminated'') = host_states w (fixId E ''info.terminated'')"
    "filter health_write (events w4) = filter health_write (events w)"
    using h4 by (simp_all add: health_def)
  have g1: "grown (\<lambda>e. True) w w1" by (simp add: w1_def clearTimeout_def emit_def grown_def)
  have g2: "grown (\<lambda>e. True) w1 w2"
    using inner_poll_request [of w1 E] unfolding w2_def by (blast intro: inner_grown)
  have g3: "grown (\<lambda>e. True) w2 w3"
    using inner_updateConnectionStatus [of w2 E] unfolding w3_def by (blast intro: inner_grown)
  have g4: "grown (\<lambda>e. True) w3 w4" by (simp add: w4_def setTimeout_def emit_def grown_def)
  have g5: "grown (\<lambda>e. True) w4 w'"
    using inner_answer_queries [of w4 E] unfolding eq by (blast intro: inner_grown)
  from g1 g2 g3 g4 g5 have g: "grown (\<lambda>e. True) w w'" by (blast intro: grown_trans)
  have h: "health E w' = health E (answer_queries E w4)" by (simp add: eq)
  have hw: "health_writes w w' = drop (length (filter health_write (events w))) (fst (health E w'))"
    using g by (rule health_writes_health)
  show "health_writes w w' =
     (if disableAdapter w' then [SetState ''info.connection'' (JBool False) True]
      else if changed (host_states w (fixId E ''info.connection'')) (noOfConnectionErrors w' = 0)
        then [SetState ''info.connection'' (JBool (noOfConnectionErrors w' = 0)) True]
      else []) @
     (if changed (host_states w (fixId E ''info.missing_state'')) (missingState w')
      then [SetState ''info.missing_state'' (JBool (missingState w')) True] else []) @
     (if changed (host_states w (fixId E ''info.terminated'')) (disableAdapter w')
      then [SetState ''info.terminated'' (JBool (disableAdapter w')) True] else [])"
    unfolding hw h health_answer_queries flags st by simp
  have p: "snd (health E w') = snd (health E (answer_queries E w4))" by (simp add: eq)
  show "host_states w' (fixId E ''info.connection'') =
     (if disableAdapter w' then Some \<lparr>val = JBool False, ack = True\<rparr>
      else if changed (host_states w (fixId E ''info.connection'')) (noOfConnectionErrors w' = 0)
        then Some \<lparr>val = JBool (noOfConnectionErrors w' = 0), ack = True\<rparr>
      else host_states w (fixId E ''info.connection''))"
    using p unfolding health_answer_queries flags st by (simp add: health_def)
  show "host_states w' (fixId E ''info.missing_state'') =
     (if changed (host_states w (fixId E ''info.missing_state'')) (missingState w')
      then Some \<lparr>val = JBool (missingState w'), ack = True\<rparr>
      else host_states w (fixId E ''info.missing_state''))"
    using p unfolding health_answer_queries flags st by (simp add: health_def)
  show "host_states w' (fixId E ''info.terminated'') =
     (if changed (host_states w (fixId E ''info.terminated'')) (disableAdapter w')
      then Some \<lparr>val = JBool (disableAdapter w'), ack = True\<rparr>
      else host_states w (fixId E ''info.terminated''))"
    using p unfolding health_answer_queries flags st by (simp add: health_def)
qed

lemma changed_Some: "changed (Some \<lparr>val = JBool a, ack = k\<rparr>) b \<longleftrightarrow> a \<noteq> b"
  by (simp add: changed_iff)

lemma pollDeviceStatus_holds:
  "map_option val (host_states (pollDeviceStatus E w) (fixId E ''info.connection'')) =
     Some (JBool (\<not> disableAdapter (pollDeviceStatus E w) \<and>
                  noOfConnectionErrors (pollDeviceStatus E w) = 0))"
  "map_option val (host_states (pollDeviceStatus E w) (fixId E ''info.missing_state'')) =
     Some (JBool (missingState (pollDeviceStatus E w)))"
  "map_option val (host_states (pollDeviceStatus E w) (fixId E ''info.terminated'')) =
     Some (JBool (disableAdapter (pollDeviceStatus E w)))"
  unfolding pollDeviceStatus_health(2-4)
  by (auto simp: changed_iff split: option.splits)


lemma changed_holds: "map_option val st = Some (JBool a) \<Longrightarrow> changed st b \<longleftrightarrow> a \<noteq> b"
  by (cases st) (auto simp: changed_iff)

lemma pollDeviceStatus_next:
  fixes E w
  defines "w1 \<equiv> pollDeviceStatus E w"
  defines "w2 \<equiv> pollDeviceStatus E w1"
  shows "health_writes w1 w2 =
     (if disableAdapter w2 then [SetState ''info.connection'' (JBool False) True]
      else if (noOfConnectionErrors w2 = 0) \<noteq> (noOfConnectionErrors w1 = 0)
        then [SetState ''info.connection'' (JBool (noOfConnectionErrors w2 = 0)) True]
      else []) @
     (if missingState w2 \<noteq> missingState w1
      then [SetState ''info.missing_state'' (JBool (missingState w2)) True] else []) @
     (if disableAdapter w2 \<noteq> disableAdapter w1
      then [SetState ''info.terminated'' (JBool (disableAdapter w2)) True] else [])"
proof -
  have "progress w1 w2" unfolding w2_def by (rule pollDeviceStatus_facts)
  then have d: "\<not> disableAdapter w2 \<Longrightarrow> \<not> disableAdapter w1" by (auto simp: progress_def)
  have c: "changed (host_states w1 (fixId E ''info.connection'')) b \<longleftrightarrow>
      (\<not> disableAdapter w1 \<and> noOfConnectionErrors w1 = 0) \<noteq> b" for b
    unfolding w1_def using pollDeviceStatus_holds(1) by (rule changed_holds)
  have m: "changed (host_states w1 (fixId E ''info.missing_state'')) b \<longleftrightarrow> missingState w1 \<noteq> b" for b
    unfolding w1_def using pollDeviceStatus_holds(2) by (rule changed_holds)
  have t: "changed (host_states w1 (fixId E ''info.terminated'')) b \<longleftrightarrow> disableAdapter w1 \<noteq> b" for b
    unfolding w1_def using pollDeviceStatus_holds(3) by (rule changed_holds)
  show ?thesis
    unfolding w2_def pollDeviceStatus_health(1) [of w1 E] c m t
    using d unfolding w2_def by auto
qed

lemma missingState_getObjectAsync:
  "getObjectAsync E i w = (r, w') \<Longrightarrow>
   missingState w' = missingState w \<and> host_objects w' = host_objects w \<and>
   (\<forall>ob. r = Inr ob \<longrightarrow> ob = host_objects w (fixId E i))"
  by (auto simp: getObjectAsync_def host_call_def emit_def split: bool.splits)

lemma missingState_sync_existing:
  "sync_existing E s w = (r, w') \<Longrightarrow>
   missingState w' = missingState w \<and> host_objects w' = host_objects w"
  by (auto simp: sync_existing_def getStateAsync_def host_call_def publish_def setStateAsync_def
      store_state_def intercept_nonce_def buffer_versions_def update_nonce_def date_now_def
      emit_def Let_def split: bool.splits option.splits if_splits)

lemma missingState_eco_editable_special:
  "eco_editable_special E s v w = (r, w') \<Longrightarrow> missingState w' = missingState w"
  by (auto simp: eco_editable_special_def getObjectAsync_def setObjectAsync_def host_call_def
      emit_def split: bool.splits option.splits if_splits)

lemma missingState_process_try:
  assumes "process_try E s v w = (r, w')" and "host_objects w (fixId E s) \<noteq> None"
  shows "missingState w' = missingState w"
proof -
  obtain a x1 where g: "getObjectAsync E s w = (a, x1)" by (cases "getObjectAsync E s w")
  note g1 = missingState_getObjectAsync [OF g]
  show ?thesis
  proof (cases a)
    case (Inl e)
    with assms g g1 show ?thesis by (auto simp: process_try_def)
  next
    case (Inr ob)
    with g1 assms(2) obtain ob' where ob: "ob = Some ob'" by auto
    obtain b x2 where se: "sync_existing E s x1 = (b, x2)" by (cases "sync_existing E s x1")
    note g2 = missingState_sync_existing [OF se]
    show ?thesis
    proof (cases b)
      case (Some e)
      with assms(1) g Inr ob se g1 g2 show ?thesis by (simp add: process_try_def)
    next
      case None
      with assms(1) g Inr ob se have "eco_editable_special E s v x2 = (r, w')"
        by (simp add: process_try_def)
      then have "missingState w' = missingState x2" by (rule missingState_eco_editable_special)
      with g1 g2 show ?thesis by simp
    qed
  qed
qed

lemma missingState_processState:
  assumes "host_objects x (fixId E (state_name p k)) \<noteq> None"
  shows "missingState (processState E p k v x) = missingState x"
proof -
  obtain r x3 where t: "process_try E (state_name p k) v
       ((emit (Processing (state_name p k) v) x)
          \<lparr>deviceStates := (deviceStates x)(state_name p k := Some (Some v))\<rparr>) = (r, x3)"
    and eq: "processState E p k v x = (case r of None \<Rightarrow> x3
      | Some e \<Rightarrow> (emit (Log Err (''Error processing state '' @ state_name p k)) x3)
               \<lparr>disableAdapter := True\<rparr>)"
    by (rule processState_cases)
  from t have "missingState x3 = missingState ((emit (Processing (state_name p k) v) x)
          \<lparr>deviceStates := (deviceStates x)(state_name p k := Some (Some v))\<rparr>)"
    by (rule missingState_process_try) (simp add: emit_def assms)
  then show ?thesis unfolding eq by (simp add: emit_def split: option.splits)
qed

lemma missingState_fold:
  "\<forall>i. host_objects x i \<noteq> None \<Longrightarrow> missingState (fold (sync_item E) its x) = missingState x"
proof (induction its arbitrary: x)
  case Nil
  show ?case by simp
next
  case (Cons it its)
  have "progress x (sync_item E it x)" using inner_sync_item by (rule inner_progress)
  with Cons.prems have "\<forall>i. host_objects (sync_item E it x) i \<noteq> None"
    by (simp add: progress_def)
  then have "missingState (fold (sync_item E) its (sync_item E it x)) =
      missingState (sync_item E it x)"
    by (rule Cons.IH)
  moreover have "missingState (sync_item E it x) = missingState x"
    using Cons.prems by (cases it) (simp_all add: missingState_processState sync_failed_def emit_def)
  ultimately show ?case by simp
qed

lemma missingState_nonce_from_response:
  "nonce_from_response E d w = (r, w') \<Longrightarrow>
   missingState w' = missingState w \<and> host_objects w' = host_objects w"
  by (auto simp: nonce_from_response_def nonce_missing_def update_nonce_def date_now_def
      emit_def split: sum.splits option.splits if_splits)

lemma missingState_poll_request:
  assumes "\<forall>i. host_objects w i \<noteq> None"
  shows "missingState (poll_request E w) = missingState w"
proof -
  obtain t x1 where d: "date_now E w = (t, x1)" by (cases "date_now E w")
  obtain r x2 where a: "axios E (HttpGet (''http://'' @ fireplaceAddress E @ ''/status.cgi?ts='' @
                           show_int t)) x1 = (r, x2)"
    by (cases "axios E (HttpGet (''http://'' @ fireplaceAddress E @ ''/status.cgi?ts='' @
                           show_int t)) x1")
  from d a have h2: "missingState x2 = missingState w" "host_objects x2 = host_objects w"
    by (auto simp: date_now_def axios_def emit_def)
  obtain e x3 where n: "nonce_from_response E (case r of Inr resp \<Rightarrow> data resp | _ \<Rightarrow> JNull)
      (x2\<lparr>noOfConnectionErrors := 0\<rparr>) = (e, x3)"
    by (cases "nonce_from_response E (case r of Inr resp \<Rightarrow> data resp | _ \<Rightarrow> JNull)
      (x2\<lparr>noOfConnectionErrors := 0\<rparr>)")
  from missingState_nonce_from_response [OF n]
  have h3: "missingState x3 = missingState x2" "host_objects x3 = host_objects x2" by simp_all
  with h2 assms have "\<forall>i. host_objects x3 i \<noteq> None" by simp
  then have "missingState (syncState E doc [] x3) = missingState x3" for doc
    by (simp add: syncState_flatten missingState_fold)
  then have "missingState (poll_request E w) = missingState x2"
    using d a n h3 unfolding poll_request_def
    by (auto split: sum.splits option.splits simp: connection_error_def emit_def)
  with h2 show ?thesis by simp
qed

lemma missingState_pollDeviceStatus:
  assumes "\<forall>i. host_objects w i \<noteq> None"
  shows "missingState (pollDeviceStatus E w) = missingState w"
proof -
  have "missingState (poll_request E (clearTimeout w)) = missingState (clearTimeout w)"
    using assms by (intro missingState_poll_request) (simp add: clearTimeout_def emit_def)
  then show ?thesis
    by (simp add: pollDeviceStatus_def Let_def flags_answer_queries setTimeout_def
        updateConnectionStatus_def check_versions_def clearTimeout_def emit_def
        split: option.splits)
qed

section \<open>The claims\<close>

text \<open>
  C9. The derived PIN hash is the hash of the PIN, whatever the state of the adapter; once
  \<open>initialize\<close> has stored it, nothing that happens to the adapter changes it. The session
  secret is the same hash of the nonce followed by the derived PIN hash.
\<close>

theorem credentials_derived:
  "calculateHPIN E PIN = md5 E PIN \<and>
   hpin (run E os (initialize E w)) = Some (calculateHPIN E (pin E)) \<and>
   calculateHSPIN E (JStr n) (Some h) = md5 E (n @ h) \<and>
   calculateHSPIN E NONCE (Some h) = md5 E (toString NONCE @ h) \<and>
   hspin (update_nonce E NONCE w) = Some (calculateHSPIN E NONCE (hpin w))"
  by (simp add: calculateHPIN_def calculateHSPIN_def hpin_run hpin_initialize
      update_nonce_def date_now_def)

text \<open>
  C5. The flag \<open>disableAdapter\<close> is false when the adapter starts. An unsupported
  combination of hardware and software version sets it, and so does a call to the host that
  is rejected while the states are synchronised. Nothing that happens to the adapter resets
  it. Once it is set in a run of the adapter, it stays set, no timer is pending and no
  timer is armed, however the run goes on: no poll is scheduled any more.
\<close>

theorem disabled_is_final:
  "\<not> disableAdapter (initial_world hs ho) \<and>
   (hw_version w = Some hw \<and> sw_version w = Some sw \<and>
      \<not> supportedHwSwVersions E (toString hw @ ''_'' @ toString sw) \<longrightarrow>
      disableAdapter (updateConnectionStatus E w)) \<and>
   (faulted E x (syncState E doc path x) \<longrightarrow> disableAdapter (syncState E doc path x)) \<and>
   (disableAdapter y \<longrightarrow> disableAdapter (react E occ y)) \<and>
   (disableAdapter (run E os (initial_world hs ho)) \<longrightarrow>
      disableAdapter (run E (os @ os') (initial_world hs ho)) \<and>
      timer (run E (os @ os') (initial_world hs ho)) = None \<and>
      scheduled (run E os (initial_world hs ho)) (run E (os @ os') (initial_world hs ho)) = [])"
  using unsupported_disables faulted_syncState react_disabled disabled_no_timer
    disabled_never_scheduled
  by (simp add: initial_world_def)

theorem disabled_is_final_witness:
  "hw_version (fresh_world\<lparr>hw_version := Some (JStr ''1''), sw_version := Some (JStr ''3'')\<rparr>)
     = Some (JStr ''1'') \<and>
   sw_version (fresh_world\<lparr>hw_version := Some (JStr ''1''), sw_version := Some (JStr ''3'')\<rparr>)
     = Some (JStr ''3'') \<and>
   \<not> supportedHwSwVersions failing_host (toString (JStr ''1'') @ ''_'' @ toString (JStr ''3'')) \<and>
   disableAdapter (updateConnectionStatus failing_host
     (fresh_world\<lparr>hw_version := Some (JStr ''1''), sw_version := Some (JStr ''3'')\<rparr>)) \<and>
   faulted failing_host fresh_world (syncState failing_host (JObj [(''a'', JNum 1)]) [] fresh_world) \<and>
   disableAdapter (syncState failing_host (JObj [(''a'', JNum 1)]) [] fresh_world) \<and>
   disableAdapter (fresh_world\<lparr>disableAdapter := True\<rparr>) \<and>
   disableAdapter (react failing_host TimerExpired (fresh_world\<lparr>disableAdapter := True\<rparr>)) \<and>
   disableAdapter (run failing_host [Ready] (initial_world (\<lambda>i. None) (\<lambda>i. None))) \<and>
   disableAdapter (run failing_host
      ([Ready] @ [StateChange ''haassohn.0.device.prg'' (Some \<lparr>val = JNum 2, ack = False\<rparr>)])
      (initial_world (\<lambda>i. None) (\<lambda>i. None))) \<and>
   timer (run failing_host
      ([Ready] @ [StateChange ''haassohn.0.device.prg'' (Some \<lparr>val = JNum 2, ack = False\<rparr>)])
      (initial_world (\<lambda>i. None) (\<lambda>i. None))) = None \<and>
   scheduled (run failing_host [Ready] (initial_world (\<lambda>i. None) (\<lambda>i. None)))
     (run failing_host
      ([Ready] @ [StateChange ''haassohn.0.device.prg'' (Some \<lparr>val = JNum 2, ack = False\<rparr>)])
      (initial_world (\<lambda>i. None) (\<lambda>i. None))) = []"
proof -
  have h1: "hw_version (fresh_world\<lparr>hw_version := Some (JStr ''1''), sw_version := Some (JStr ''3'')\<rparr>)
     = Some (JStr ''1'') \<and>
   sw_version (fresh_world\<lparr>hw_version := Some (JStr ''1''), sw_version := Some (JStr ''3'')\<rparr>)
     = Some (JStr ''3'') \<and>
   \<not> supportedHwSwVersions failing_host (toString (JStr ''1'') @ ''_'' @ toString (JStr ''3''))"
    by (simp add: failing_host_def example_environment_def)
  have "host_calls (syncState failing_host (JObj [(''a'', JNum 1)]) [] fresh_world) = 1"
    by code_simp
  moreover have "host_calls fresh_world = 0" "host_fault failing_host 0"
    by (simp_all add: fresh_world_def initial_world_def failing_host_def example_environment_def)
  ultimately have h2: "faulted failing_host fresh_world
      (syncState failing_host (JObj [(''a'', JNum 1)]) [] fresh_world)"
    by (auto simp: faulted_def)
  have h3: "disableAdapter (fresh_world\<lparr>disableAdapter := True\<rparr>)" by simp
  have h4: "disableAdapter (run failing_host [Ready] (initial_world (\<lambda>i. None) (\<lambda>i. None)))"
    by code_simp
  show ?thesis
    using h1 h2 h3 h4
      disabled_is_final [of "\<lambda>i. None" "\<lambda>i. None"
        "fresh_world\<lparr>hw_version := Some (JStr ''1''), sw_version := Some (JStr ''3'')\<rparr>"
        "JStr ''1''" "JStr ''3''" failing_host fresh_world "JObj [(''a'', JNum 1)]" "[]"
        "fresh_world\<lparr>disableAdapter := True\<rparr>" TimerExpired "[Ready]"
        "[StateChange ''haassohn.0.device.prg'' (Some \<lparr>val = JNum 2, ack = False\<rparr>)]"]
    by blast
qed

text \<open>
  C1, as the code has it. \<open>validateAndRefreshNonce\<close> polls the device exactly when the
  cached nonce is falsy (never set, or set to a falsy value such as \<^verbatim>\<open>0\<close> or the empty
  string) or the clock is more than 3600000 ms past the nonce's timestamp; a poll sends a
  request. Otherwise nothing happens but the reading of the clock: no request, no event.
\<close>

theorem nonce_refresh:
  "(requests (validateAndRefreshNonce E w) \<noteq> requests w \<longleftrightarrow>
      (\<not> truthy_opt (nonce w) \<or> clock E (clock_reads w) - nonceTimestamp w > 3600000)) \<and>
   validateAndRefreshNonce E w =
     (if \<not> truthy_opt (nonce w) \<or> clock E (clock_reads w) - nonceTimestamp w > 3600000
      then pollDeviceStatus E (w\<lparr>clock_reads := Suc (clock_reads w)\<rparr>)
      else w\<lparr>clock_reads := Suc (clock_reads w)\<rparr>)"
  using poll_iff_requests validateAndRefreshNonce_cases by blast

theorem nonce_refresh_witness:
  "\<not> truthy_opt (nonce fresh_world) \<and>
   requests (validateAndRefreshNonce unreachable_device fresh_world) \<noteq> requests fresh_world \<and>
   truthy_opt (nonce (fresh_world\<lparr>nonce := Some (JStr ''abc''), nonceTimestamp := 500\<rparr>)) \<and>
   clock unreachable_device
       (clock_reads (fresh_world\<lparr>nonce := Some (JStr ''abc''), nonceTimestamp := 500\<rparr>))
     - nonceTimestamp (fresh_world\<lparr>nonce := Some (JStr ''abc''), nonceTimestamp := 500\<rparr>)
     = 500 \<and>
   validateAndRefreshNonce unreachable_device
       (fresh_world\<lparr>nonce := Some (JStr ''abc''), nonceTimestamp := 500\<rparr>)
     = fresh_world\<lparr>nonce := Some (JStr ''abc''), nonceTimestamp := 500, clock_reads := 1\<rparr>"
proof -
  have a: "\<not> truthy_opt (nonce fresh_world)"
    by (simp add: fresh_world_def initial_world_def)
  have b: "truthy_opt (nonce (fresh_world\<lparr>nonce := Some (JStr ''abc''), nonceTimestamp := 500\<rparr>))"
    by simp
  have c: "clock unreachable_device
       (clock_reads (fresh_world\<lparr>nonce := Some (JStr ''abc''), nonceTimestamp := 500\<rparr>))
     - nonceTimestamp (fresh_world\<lparr>nonce := Some (JStr ''abc''), nonceTimestamp := 500\<rparr>)
     = 500"
    by (simp add: fresh_world_def initial_world_def unreachable_device_def example_environment_def)
  have d: "clock_reads fresh_world = 0"
    by (simp add: fresh_world_def initial_world_def)
  have p: "requests (validateAndRefreshNonce unreachable_device fresh_world) \<noteq> requests fresh_world"
    using a nonce_refresh [of unreachable_device fresh_world] by blast
  have q: "validateAndRefreshNonce unreachable_device
       (fresh_world\<lparr>nonce := Some (JStr ''abc''), nonceTimestamp := 500\<rparr>)
     = fresh_world\<lparr>nonce := Some (JStr ''abc''), nonceTimestamp := 500, clock_reads := 1\<rparr>"
    using b c d nonce_refresh [of unreachable_device
        "fresh_world\<lparr>nonce := Some (JStr ''abc''), nonceTimestamp := 500\<rparr>"]
    by simp
  from a p b c q show ?thesis by (intro conjI)
qed

text \<open>
  With "unset" for "falsy" the equivalence fails: a device that reports the nonce \<^verbatim>\<open>0\<close> leaves the adapter
  with a nonce that is set and fresh, and the next check polls all the same.
\<close>

theorem nonce_refresh_counterexample:
  "\<not> (requests (validateAndRefreshNonce device_zero_nonce (run device_zero_nonce [Ready] host_with_objects))
        \<noteq> requests (run device_zero_nonce [Ready] host_with_objects) \<longleftrightarrow>
      (nonce (run device_zero_nonce [Ready] host_with_objects) = None \<or>
       clock device_zero_nonce (clock_reads (run device_zero_nonce [Ready] host_with_objects))
         - nonceTimestamp (run device_zero_nonce [Ready] host_with_objects) > 3600000))"
proof -
  have a: "nonce (run device_zero_nonce [Ready] host_with_objects) = Some (JNum 0)"
    by code_simp
  have b: "clock device_zero_nonce (clock_reads (run device_zero_nonce [Ready] host_with_objects))
         - nonceTimestamp (run device_zero_nonce [Ready] host_with_objects) = 1"
    by code_simp
  show ?thesis
    using a b poll_iff_requests [of device_zero_nonce "run device_zero_nonce [Ready] host_with_objects"]
    by simp
qed

text \<open>
  C6. When the lookup of a point's object returns \<^verbatim>\<open>null\<close>, the flag \<open>missingState\<close> is
  set, the object is still absent afterwards and no state of the host is written. With a
  host that rejects no call, a document with such a point leaves the flag set. Once set,
  the flag stays set whatever happens to the adapter afterwards, also when the host has
  got all its objects and states in the meantime.
\<close>

theorem missing_state_sticky:
  "(host_objects w (fixId E (state_name p k)) = None \<and> \<not> host_fault E (host_calls w) \<longrightarrow>
      missingState (processState E p k v w) \<and>
      host_objects (processState E p k v w) (fixId E (state_name p k)) = None \<and>
      host_states (processState E p k v w) = host_states w) \<and>
   ((\<forall>n. \<not> host_fault E n) \<and> Point p k v \<in> set (flatten doc path) \<and>
      host_objects x (fixId E (state_name p k)) = None \<longrightarrow>
      missingState (syncState E doc path x)) \<and>
   (missingState y \<longrightarrow> missingState (run E os (y\<lparr>host_objects := ho, host_states := hs\<rparr>)))"
  using missing_object_flagged [of w E p k v] missing_point_flagged [of E p k v "flatten doc path" x]
    run_missingState [of "y\<lparr>host_objects := ho, host_states := hs\<rparr>" E os]
  by (simp add: syncState_flatten)

theorem missing_state_sticky_witness:
  "host_objects fresh_world (fixId unreachable_device (state_name ''x'' ''y'')) = None \<and>
   \<not> host_fault unreachable_device (host_calls fresh_world) \<and>
   missingState (processState unreachable_device ''x'' ''y'' (JNum 1) fresh_world) \<and>
   host_objects (processState unreachable_device ''x'' ''y'' (JNum 1) fresh_world)
     (fixId unreachable_device (state_name ''x'' ''y'')) = None \<and>
   host_states (processState unreachable_device ''x'' ''y'' (JNum 1) fresh_world)
     = host_states fresh_world \<and>
   (\<forall>n. \<not> host_fault unreachable_device n) \<and>
   Point ''x'' ''y'' (JNum 1) \<in> set (flatten (JObj [(''x'', JObj [(''y'', JNum 1)])]) []) \<and>
   missingState (syncState unreachable_device (JObj [(''x'', JObj [(''y'', JNum 1)])]) [] fresh_world) \<and>
   missingState (fresh_world\<lparr>missingState := True\<rparr>) \<and>
   missingState (run unreachable_device [Ready, TimerExpired]
     (fresh_world\<lparr>missingState := True, host_objects := (\<lambda>i. Some \<lparr>common_write = None\<rparr>),
        host_states := (\<lambda>i. None)\<rparr>))"
proof -
  have a: "host_objects fresh_world (fixId unreachable_device (state_name ''x'' ''y'')) = None"
    by (simp add: fresh_world_def initial_world_def)
  have b: "\<not> host_fault unreachable_device (host_calls fresh_world)"
    and c: "\<forall>n. \<not> host_fault unreachable_device n"
    by (simp_all add: unreachable_device_def example_environment_def)
  have d: "Point ''x'' ''y'' (JNum 1) \<in> set (flatten (JObj [(''x'', JObj [(''y'', JNum 1)])]) [])"
    by (simp add: new_path_def)
  have e: "missingState (fresh_world\<lparr>missingState := True\<rparr>)" by simp
  show ?thesis
    using a b c d e
      missing_state_sticky [where w = fresh_world and E = unreachable_device and p = "''x''"
        and k = "''y''" and v = "JNum 1" and doc = "JObj [(''x'', JObj [(''y'', JNum 1)])]"
        and path = "[]" and x = fresh_world and y = "fresh_world\<lparr>missingState := True\<rparr>"
        and os = "[Ready, TimerExpired]" and ho = "\<lambda>i. Some \<lparr>common_write = None\<rparr>"
        and hs = "\<lambda>i. None"]
    by simp
qed

text \<open>
  C10. When \<^verbatim>\<open>device.meta.eco_editable\<close> is processed and has no object of its own,
  while \<^verbatim>\<open>device.eco_mode\<close> has one, and the host rejects none of the three calls,
  the object of \<^verbatim>\<open>device.eco_mode\<close> is written back with \<^verbatim>\<open>common.write\<close> set to the raw
  value \<open>v\<close> of the flag; the missing state is flagged as well. A document with
  \<^verbatim>\<open>meta.eco_editable\<close> at its top is processed this way.
\<close>

theorem eco_editable_without_object:
  "host_objects w (fixId E ''device.meta.eco_editable'') = None \<and>
   host_objects w (fixId E ''device.eco_mode'') = Some obj \<and>
   \<not> host_fault E (host_calls w) \<and> \<not> host_fault E (Suc (host_calls w)) \<and>
   \<not> host_fault E (Suc (Suc (host_calls w))) \<longrightarrow>
     host_objects (processState E ''meta'' ''eco_editable'' v w) (fixId E ''device.eco_mode'')
       = Some (obj\<lparr>common_write := Some v\<rparr>) \<and>
     missingState (processState E ''meta'' ''eco_editable'' v w) \<and>
     events (processState E ''meta'' ''eco_editable'' v w) = events w @
       [Processing ''device.meta.eco_editable'' v,
        GetObject ''device.meta.eco_editable'',
        Log Warn ''State device.meta.eco_editable does not exist. Please open an issue on GitHub.'',
        GetObject ''device.eco_mode'',
        SetObject ''device.eco_mode'' (obj\<lparr>common_write := Some v\<rparr>)] \<and>
     (\<not> object_not_array v \<longrightarrow>
        syncState E (JObj [(''meta'', JObj [(''eco_editable'', v)])]) [] w =
          processState E ''meta'' ''eco_editable'' v w)"
  using eco_mode_written [of w E obj v] syncState_eco_editable [of v E w] by simp

theorem eco_editable_without_object_witness:
  "host_objects eco_mode_only (fixId unreachable_device ''device.meta.eco_editable'') = None \<and>
   host_objects eco_mode_only (fixId unreachable_device ''device.eco_mode'')
     = Some \<lparr>common_write = Some (JBool False)\<rparr> \<and>
   \<not> host_fault unreachable_device (host_calls eco_mode_only) \<and>
   \<not> host_fault unreachable_device (Suc (host_calls eco_mode_only)) \<and>
   \<not> host_fault unreachable_device (Suc (Suc (host_calls eco_mode_only))) \<and>
   \<not> object_not_array (JArr [JNum 1]) \<and>
   host_objects (syncState unreachable_device
       (JObj [(''meta'', JObj [(''eco_editable'', JArr [JNum 1])])]) [] eco_mode_only)
     (fixId unreachable_device ''device.eco_mode'')
     = Some \<lparr>common_write = Some (JArr [JNum 1])\<rparr> \<and>
   missingState (processState unreachable_device ''meta'' ''eco_editable'' (JArr [JNum 1])
     eco_mode_only)"
proof -
  have a: "host_objects eco_mode_only (fixId unreachable_device ''device.meta.eco_editable'') = None"
    by code_simp
  have b: "host_objects eco_mode_only (fixId unreachable_device ''device.eco_mode'')
     = Some \<lparr>common_write = Some (JBool False)\<rparr>"
    by code_simp
  have c: "\<not> host_fault unreachable_device (host_calls eco_mode_only)"
    "\<not> host_fault unreachable_device (Suc (host_calls eco_mode_only))"
    "\<not> host_fault unreachable_device (Suc (Suc (host_calls eco_mode_only)))"
    by (simp_all add: unreachable_device_def example_environment_def)
  have d: "\<not> object_not_array (JArr [JNum 1])" by simp
  show ?thesis
    using a b c d
      eco_editable_without_object [of eco_mode_only unreachable_device
        "\<lparr>common_write = Some (JBool False)\<rparr>" "JArr [JNum 1]"]
    by simp
qed

text \<open>
  C8. A command for \<^verbatim>\<open>device.eco_mode\<close> that arrives while the state
  \<^verbatim>\<open>device.meta.eco_editable\<close> holds \<^verbatim>\<open>false\<close> (or any falsy value) only reads that state
  and logs the warning: no request is sent, no state is set, nothing else changes.
\<close>

theorem eco_mode_gated:
  "host_states w (fixId E ''device.meta.eco_editable'') = Some es \<and> \<not> truthy (val es) \<and>
   \<not> ack st \<and> \<not> host_fault E (host_calls w) \<longrightarrow>
     handleStateChange E (namespace E @ ''.device.eco_mode'') (Some st) w =
       w\<lparr>host_calls := Suc (host_calls w),
         events := events w @ [GetState ''device.meta.eco_editable'',
           Log Warn ''Eco mode is not editable. Ignoring command to change eco mode.'']\<rparr>"
  using eco_command_dropped by blast

theorem eco_mode_gated_witness:
  "host_states eco_locked (fixId unreachable_device ''device.meta.eco_editable'')
     = Some \<lparr>val = JBool False, ack = True\<rparr> \<and>
   \<not> truthy (val \<lparr>val = JBool False, ack = True\<rparr>) \<and>
   \<not> ack \<lparr>val = JBool True, ack = False\<rparr> \<and>
   \<not> host_fault unreachable_device (host_calls eco_locked) \<and>
   requests (handleStateChange unreachable_device (namespace unreachable_device @ ''.device.eco_mode'')
      (Some \<lparr>val = JBool True, ack = False\<rparr>) eco_locked) = requests eco_locked \<and>
   host_states (handleStateChange unreachable_device (namespace unreachable_device @ ''.device.eco_mode'')
      (Some \<lparr>val = JBool True, ack = False\<rparr>) eco_locked) = host_states eco_locked \<and>
   events (handleStateChange unreachable_device (namespace unreachable_device @ ''.device.eco_mode'')
      (Some \<lparr>val = JBool True, ack = False\<rparr>) eco_locked) =
     [GetState ''device.meta.eco_editable'',
      Log Warn ''Eco mode is not editable. Ignoring command to change eco mode.'']"
proof -
  have a: "host_states eco_locked (fixId unreachable_device ''device.meta.eco_editable'')
     = Some \<lparr>val = JBool False, ack = True\<rparr>"
    by code_simp
  have b: "\<not> host_fault unreachable_device (host_calls eco_locked)"
    by (simp add: unreachable_device_def example_environment_def)
  have c: "events eco_locked = []" by (simp add: eco_locked_def initial_world_def)
  show ?thesis
    using a b c
      eco_mode_gated [of eco_locked unreachable_device "\<lparr>val = JBool False, ack = True\<rparr>"
        "\<lparr>val = JBool True, ack = False\<rparr>"]
    by simp
qed

text \<open>
  C7, as the code has it. The writes of the health indicators in a poll cycle are those of
  the three callbacks: \<^verbatim>\<open>info.missing_state\<close> and \<^verbatim>\<open>info.terminated\<close> are written when
  the host holds no state for them or a value other than the flag at the end of the cycle,
  and not otherwise, and so is \<^verbatim>\<open>info.connection\<close> as long as the adapter is not disabled;
  a disabled adapter writes \<^verbatim>\<open>false\<close> to \<^verbatim>\<open>info.connection\<close> in every cycle. After the
  cycle the host holds the value of each indicator, so that in the cycle that follows an
  indicator is written when its value is not the one published before, and otherwise not
  (but for \<^verbatim>\<open>info.connection\<close> of a disabled adapter).
\<close>

theorem health_written_on_change:
  "(let w' = pollDeviceStatus E w; w'' = pollDeviceStatus E w' in
    health_writes w w' =
      (if disableAdapter w' then [SetState ''info.connection'' (JBool False) True]
       else if changed (host_states w (fixId E ''info.connection'')) (noOfConnectionErrors w' = 0)
         then [SetState ''info.connection'' (JBool (noOfConnectionErrors w' = 0)) True]
       else []) @
      (if changed (host_states w (fixId E ''info.missing_state'')) (missingState w')
       then [SetState ''info.missing_state'' (JBool (missingState w')) True] else []) @
      (if changed (host_states w (fixId E ''info.terminated'')) (disableAdapter w')
       then [SetState ''info.terminated'' (JBool (disableAdapter w')) True] else []) \<and>
    map_option val (host_states w' (fixId E ''info.connection'')) =
      Some (JBool (\<not> disableAdapter w' \<and> noOfConnectionErrors w' = 0)) \<and>
    map_option val (host_states w' (fixId E ''info.missing_state'')) =
      Some (JBool (missingState w')) \<and>
    map_option val (host_states w' (fixId E ''info.terminated'')) =
      Some (JBool (disableAdapter w')) \<and>
    health_writes w' w'' =
      (if disableAdapter w'' then [SetState ''info.connection'' (JBool False) True]
       else if (noOfConnectionErrors w'' = 0) \<noteq> (noOfConnectionErrors w' = 0)
         then [SetState ''info.connection'' (JBool (noOfConnectionErrors w'' = 0)) True]
       else []) @
      (if missingState w'' \<noteq> missingState w'
       then [SetState ''info.missing_state'' (JBool (missingState w'')) True] else []) @
      (if disableAdapter w'' \<noteq> disableAdapter w'
       then [SetState ''info.terminated'' (JBool (disableAdapter w'')) True] else [])) \<and>
   (changed st b \<longleftrightarrow> (case st of None \<Rightarrow> True | Some s \<Rightarrow> val s \<noteq> JBool b))"
  unfolding Let_def
  using pollDeviceStatus_health(1) [of w E] pollDeviceStatus_holds [of E w]
    pollDeviceStatus_next [of E w] changed_iff [of st b]
  by (intro conjI)

theorem health_written_on_change_witness:
  "health_writes host_with_objects (pollDeviceStatus healthy_device host_with_objects) =
     [SetState ''info.connection'' (JBool True) True,
      SetState ''info.missing_state'' (JBool False) True,
      SetState ''info.terminated'' (JBool False) True] \<and>
   health_writes (pollDeviceStatus healthy_device host_with_objects)
     (pollDeviceStatus healthy_device (pollDeviceStatus healthy_device host_with_objects)) = []"
proof -
  let ?w1 = "pollDeviceStatus healthy_device host_with_objects"
  let ?w2 = "pollDeviceStatus healthy_device ?w1"
  have f1: "\<not> disableAdapter ?w1" "noOfConnectionErrors ?w1 = 0" "\<not> missingState ?w1"
    by code_simp+
  have f2: "\<not> disableAdapter ?w2" "noOfConnectionErrors ?w2 = 0" "\<not> missingState ?w2"
    by code_simp+
  have s: "host_states host_with_objects i = None" for i
    by (simp add: host_with_objects_def initial_world_def)
  show ?thesis
    using health_written_on_change [where E = healthy_device and w = host_with_objects]
    unfolding Let_def by (simp add: f1 f2 s changed_def)
qed

text \<open>
  Without the exception for the disabled adapter the statement fails for
  \<^verbatim>\<open>info.connection\<close>: the device reports an unsupported pair of versions, the first cycle
  disables the adapter and publishes \<^verbatim>\<open>false\<close>; the next cycle finds \<^verbatim>\<open>false\<close> and
  writes \<^verbatim>\<open>false\<close> again, and nothing else.
\<close>

theorem health_written_on_change_counterexample:
  "host_states (run unsupported_device [Ready] host_with_objects)
     (fixId unsupported_device ''info.connection'') = Some \<lparr>val = JBool False, ack = True\<rparr> \<and>
   health_writes (run unsupported_device [Ready] host_with_objects)
     (pollDeviceStatus unsupported_device (run unsupported_device [Ready] host_with_objects)) =
     [SetState ''info.connection'' (JBool False) True]"
proof -
  let ?w1 = "run unsupported_device [Ready] host_with_objects"
  let ?w2 = "pollDeviceStatus unsupported_device ?w1"
  have d1: "disableAdapter ?w1" by code_simp
  have m1: "\<not> missingState ?w1" by code_simp
  have c: "host_states ?w1 (fixId unsupported_device ''info.connection'') =
      Some \<lparr>val = JBool False, ack = True\<rparr>"
    by code_simp
  have m: "host_states ?w1 (fixId unsupported_device ''info.missing_state'') =
      Some \<lparr>val = JBool False, ack = True\<rparr>"
    by code_simp
  have t: "host_states ?w1 (fixId unsupported_device ''info.terminated'') =
      Some \<lparr>val = JBool True, ack = True\<rparr>"
    by code_simp
  have "progress ?w1 ?w2" by (rule pollDeviceStatus_facts)
  with d1 have d2: "disableAdapter ?w2" by (simp add: progress_def)
  have "lasting host_with_objects ?w1" by (rule run_lasting)
  then have "\<forall>i. host_objects ?w1 i \<noteq> None"
    by (simp add: lasting_def host_with_objects_def initial_world_def)
  with m1 have m2: "\<not> missingState ?w2" by (simp add: missingState_pollDeviceStatus)
  show ?thesis
    using pollDeviceStatus_health(1) [of ?w1 unsupported_device]
    by (simp add: c m t d2 m2 changed_def)
qed

text \<open>
  C2. \<open>makeAuthenticatedRequest\<close> checks the nonce first and then builds the headers anew,
  but from \<^verbatim>\<open>options.data\<close>, which \<open>handleStateChange\<close> sets to the object
  \<^verbatim>\<open>post_data\<close> and not to its JSON text: \<^verbatim>\<open>Buffer.byteLength\<close> throws, and the command
  ends in the error log without a request (so it is for the command \<^verbatim>\<open>prg = 2\<close> sent to
  an adapter that has just polled a healthy device). Called with the JSON text, as
  \<open>handleStateChange\<close> calls it on line 129, \<open>createHeader\<close> gives the length of the
  body, the host and the current session secret.
\<close>

theorem command_never_sent:
  "makeAuthenticatedRequest E \<lparr>req_url = u, req_data = JObj fs, req_headers = h0\<rparr> w =
     (Inl TypeError, validateAndRefreshNonce E w) \<and>
   command_try E st (JObj fs) s w = command_failed (validateAndRefreshNonce E w) \<and>
   handleStateChange E (namespace E @ ''.device.prg'') (Some \<lparr>val = v, ack = False\<rparr>) w =
     pollDeviceStatus E (command_failed (validateAndRefreshNonce E w)) \<and>
   filter is_post (events (run healthy_device
      [Ready, StateChange ''haassohn.0.device.prg'' (Some \<lparr>val = JNum 2, ack = False\<rparr>)]
      host_with_objects)) = [] \<and>
   (\<exists>h. createHeader E (JStr body) w = Inr h \<and>
       map_of h ''Content-Length'' = Some (HNum (length body)) \<and>
       map_of h ''Host'' = Some (HStr (fireplaceAddress E)) \<and>
       map_of h ''X-HS-PIN'' = Some (case hspin w of None \<Rightarrow> HUndefined | Some s \<Rightarrow> HStr s))"
proof -
  have "filter is_post (events (run healthy_device
      [Ready, StateChange ''haassohn.0.device.prg'' (Some \<lparr>val = JNum 2, ack = False\<rparr>)]
      host_with_objects)) = []"
    by code_simp
  moreover have "handleStateChange E (namespace E @ ''.device.prg'')
      (Some \<lparr>val = v, ack = False\<rparr>) w =
     pollDeviceStatus E (command_failed (validateAndRefreshNonce E w))"
    by (simp add: command_try_object handleStateChange_def send_command_def)
  ultimately show ?thesis
    using createHeader_string [of E body w] makeAuthenticatedRequest_object command_try_object
    by (intro conjI) simp_all
qed

theorem command_never_sent_witness:
  "command_try healthy_device \<lparr>val = JNum 2, ack = False\<rparr> (JObj [(''prg'', JNum 2)])
      ''device.prg'' host_with_objects =
     command_failed (validateAndRefreshNonce healthy_device host_with_objects) \<and>
   makeAuthenticatedRequest healthy_device
      \<lparr>req_url = ''http://10.0.0.5/status.cgi'', req_data = JObj [(''prg'', JNum 2)],
       req_headers = []\<rparr> host_with_objects =
     (Inl TypeError, validateAndRefreshNonce healthy_device host_with_objects)"
  using command_never_sent [of healthy_device "''http://10.0.0.5/status.cgi''"
      "[(''prg'', JNum 2)]" "[]" host_with_objects "\<lparr>val = JNum 2, ack = False\<rparr>"
      "''device.prg''"]
  by blast

text \<open>
  C3, as the code has it. For the document \<^verbatim>\<open>{a: {b: 1, c: [1,2]}}\<close> and the empty path
  the synchronizer visits \<^verbatim>\<open>device.a.b\<close> with the value 1 and \<^verbatim>\<open>device.a.c\<close> with the
  array, and nothing else; on a host that has the objects and no states yet it publishes 1
  and the JSON text \<^verbatim>\<open>[1,2]\<close>. In general, for a document with no \<^verbatim>\<open>null\<close> field and no
  mapping under the empty name at its top, the points visited are those of the
  specification: mappings are recursed into, every other value is a point named by
  \<^verbatim>\<open>device\<close> and the path segments joined with dots.
\<close>

theorem flattening:
  "visits (events (syncState E
      (JObj [(''a'', JObj [(''b'', JNum 1), (''c'', JArr [JNum 1, JNum 2])])]) [] w)) =
     visits (events w) @ [(''device.a.b'', JNum 1), (''device.a.c'', JArr [JNum 1, JNum 2])] \<and>
   coerce (JNum 1) = JNum 1 \<and> coerce (JArr [JNum 1, JNum 2]) = JStr ''[1,2]'' \<and>
   events (syncState unreachable_device
      (JObj [(''a'', JObj [(''b'', JNum 1), (''c'', JArr [JNum 1, JNum 2])])]) []
      host_with_objects) =
     [Processing ''device.a.b'' (JNum 1), GetObject ''device.a.b'', GetState ''device.a.b'',
      SetState ''device.a.b'' (JNum 1) True,
      Processing ''device.a.c'' (JArr [JNum 1, JNum 2]), GetObject ''device.a.c'',
      GetState ''device.a.c'', SetState ''device.a.c'' (JStr ''[1,2]'') True] \<and>
   (no_null_fields fs \<and> named_mappings fs \<longrightarrow>
      visits (events (syncState E (JObj fs) [] w)) = visits (events w) @ spec_points_fields [] fs)"
  using visits_example [of E w] coerce_example events_example visits_spec [of fs E w]
  by (intro conjI impI) simp_all

theorem flattening_witness:
  "no_null_fields [(''a'', JObj [(''b'', JNum 1), (''c'', JArr [JNum 1, JNum 2])])] \<and>
   named_mappings [(''a'', JObj [(''b'', JNum 1), (''c'', JArr [JNum 1, JNum 2])])] \<and>
   spec_points_fields [] [(''a'', JObj [(''b'', JNum 1), (''c'', JArr [JNum 1, JNum 2])])] =
     [(''device.a.b'', JNum 1), (''device.a.c'', JArr [JNum 1, JNum 2])] \<and>
   visits (events (syncState failing_host
      (JObj [(''a'', JObj [(''b'', JNum 1), (''c'', JArr [JNum 1, JNum 2])])]) [] fresh_world)) =
     visits (events fresh_world) @
       spec_points_fields [] [(''a'', JObj [(''b'', JNum 1), (''c'', JArr [JNum 1, JNum 2])])]"
proof -
  have a: "no_null_fields [(''a'', JObj [(''b'', JNum 1), (''c'', JArr [JNum 1, JNum 2])])]"
    and b: "named_mappings [(''a'', JObj [(''b'', JNum 1), (''c'', JArr [JNum 1, JNum 2])])]"
    and c: "spec_points_fields []
        [(''a'', JObj [(''b'', JNum 1), (''c'', JArr [JNum 1, JNum 2])])] =
      [(''device.a.b'', JNum 1), (''device.a.c'', JArr [JNum 1, JNum 2])]"
    by simp_all
  from a b have "visits (events (syncState failing_host
      (JObj [(''a'', JObj [(''b'', JNum 1), (''c'', JArr [JNum 1, JNum 2])])]) [] fresh_world)) =
     visits (events fresh_world) @
       spec_points_fields [] [(''a'', JObj [(''b'', JNum 1), (''c'', JArr [JNum 1, JNum 2])])]"
    using flattening [of failing_host fresh_world
        "[(''a'', JObj [(''b'', JNum 1), (''c'', JArr [JNum 1, JNum 2])])]"]
    by blast
  with a b c show ?thesis by (intro conjI)
qed

text \<open>
  The general statement fails where a mapping sits under the empty name at the top: the code
  takes the empty path for no path, so the point of \<^verbatim>\<open>{"": {b: 1}}\<close> is \<^verbatim>\<open>device.b\<close>,
  while joining the segments gives \<^verbatim>\<open>device..b\<close>.
\<close>

theorem flattening_counterexample:
  "visits (events (syncState unreachable_device (JObj [([], JObj [(''b'', JNum 1)])]) []
      fresh_world)) = [(''device.b'', JNum 1)] \<and>
   spec_points_fields [] [([], JObj [(''b'', JNum 1)])] = [(''device..b'', JNum 1)] \<and>
   visits (events (syncState unreachable_device (JObj [([], JObj [(''b'', JNum 1)])]) []
      fresh_world)) \<noteq>
     visits (events fresh_world) @ spec_points_fields [] [([], JObj [(''b'', JNum 1)])]"
  by (simp only: visits_syncState)
    (simp add: new_path_def state_name_def fresh_world_def initial_world_def)




end
